theory Spec2Isabelle
  imports Complex_Main "HOL-Library.Multiset"
begin

section \<open>Python values and errors\<close>

text \<open>
  The exceptions the modelled code can raise.  \<open>RuntimeError\<close> is what
  \<open>scipy.optimize.curve_fit\<close> raises when the least-squares fit does not converge,
  \<open>ValueError\<close> what it (and the thread pool, and a shape mismatch) raise on bad
  arguments, \<open>IndexError\<close> what an out-of-range subscript raises,
  \<open>FileNotFoundError\<close> what reading an absent file raises.
\<close>

datatype error = IndexError | ValueError | RuntimeError | FileNotFoundError

text \<open>
  Python subscription \<open>xs[i]\<close> on a sequence: a negative index counts from the end,
  and only an index outside \<open>[-len, len)\<close> raises.
\<close>

definition getitem :: "'a list \<Rightarrow> int \<Rightarrow> error + 'a" where
  "getitem xs i =
     (if 0 \<le> i \<and> i < int (length xs) then Inr (xs ! nat i)
      else if - int (length xs) \<le> i \<and> i < 0 then Inr (xs ! nat (int (length xs) + i))
      else Inl IndexError)"

text \<open>\<open>np.arange(n)\<close>, as the real numbers \<open>0, 1, ..., n - 1\<close>.\<close>

definition arange :: "nat \<Rightarrow> real list" where
  "arange n = map real [0..<n]"

text \<open>
  \<open>np.polyval(p, x)\<close>: Horner's scheme, highest power first
  (\<open>y = 0; for pv in p: y = y * x + pv\<close>).  Arithmetic is over the reals: the
  rounding of IEEE doubles is not modelled anywhere in this theory.
\<close>

definition polyval :: "real list \<Rightarrow> real \<Rightarrow> real" where
  "polyval p x = foldl (\<lambda>y pv. y * x + pv) 0 p"

section \<open>The trace-center model\<close>

text \<open>The coefficient table of \<open>trace_polynomial\<close>, as exact decimal fractions.\<close>

definition coeffs :: "real list list" where
  "coeffs =
     [[171164994 / 10 ^ 19, - (472119272 / 10 ^ 16), 510276801 / 10 ^ 13,
       - (591535309 / 10 ^ 10), 830680347 / 10 ^ 7],
      [235792131 / 10 ^ 21, 242999478 / 10 ^ 16, 103641247 / 10 ^ 13,
       - (363088657 / 10 ^ 10), 996766537 / 10 ^ 7]]"

text \<open>
  \<open>trace_polynomial(order)\<close>: \<open>np.polyval(coeffs[order-1], np.arange(2048))\<close>.
  The subscript \<open>coeffs[order-1]\<close> is a Python list subscript, so order 0 and
  order -1 wrap around and any other order outside 1, 2 raises.
\<close>

definition trace_polynomial :: "int \<Rightarrow> error + real list" where
  "trace_polynomial order =
     (case getitem coeffs (order - 1) of
        Inl e \<Rightarrow> Inl e
      | Inr c \<Rightarrow> Inr (map (polyval c) (arange 2048)))"

text \<open>\<open>trace_polynomial(order)[idx]\<close>, the expected center of an order's trace in a column.\<close>

definition trace_center :: "int \<Rightarrow> int \<Rightarrow> error + real" where
  "trace_center order idx =
     (case trace_polynomial order of Inl e \<Rightarrow> Inl e | Inr t \<Rightarrow> getitem t idx)"

section \<open>Frames\<close>

text \<open>
  A 2D numpy array: its number of columns and its rows.  Every row of a well-formed
  frame has \<open>ncols\<close> entries; numpy cannot build any other.
\<close>

record frame =
  ncols :: nat
  rows :: "real list list"

definition wf_frame :: "frame \<Rightarrow> bool" where
  "wf_frame fr = list_all (\<lambda>r. length r = ncols fr) (rows fr)"

text \<open>\<open>frame[:, idx]\<close>: the column at \<open>idx\<close>, a negative \<open>idx\<close> counting from the right.\<close>

definition frame_column :: "frame \<Rightarrow> int \<Rightarrow> error + real list" where
  "frame_column fr idx =
     (case getitem [0..<ncols fr] idx of
        Inl e \<Rightarrow> Inl e
      | Inr j \<Rightarrow> Inr (map (\<lambda>r. r ! j) (rows fr)))"

definition ones_like :: "real list \<Rightarrow> real list" where
  "ones_like col = map (\<lambda>_. 1) col"

definition zeros_like :: "frame \<Rightarrow> frame" where
  "zeros_like fr = \<lparr>ncols = ncols fr, rows = map (map (\<lambda>_. 0)) (rows fr)\<rparr>"

text \<open>
  \<open>order1[:, n] = ord1\<close>: assignment to column \<open>n\<close>.  It raises when the frame has no
  column \<open>n\<close> and when the shapes do not match (numpy would also broadcast a
  one-element value, which \<open>isolate_signal\<close> never produces for a taller frame).
\<close>

definition set_column :: "frame \<Rightarrow> nat \<Rightarrow> real list \<Rightarrow> error + frame" where
  "set_column fr n v =
     (if ncols fr \<le> n then Inl IndexError
      else if length v \<noteq> length (rows fr) then Inl ValueError
      else Inr (fr\<lparr>rows := map (\<lambda>(r, x). r[n := x]) (zip (rows fr) v)\<rparr>))"

section \<open>The column signal isolator\<close>

text \<open>
  The values the \<open>radius\<close> argument can hold.  \<open>isinstance(radius, int)\<close> is true of an
  \<open>int\<close> and of a \<open>bool\<close> (a subclass of \<open>int\<close>, with \<open>True == 1\<close>), false of
  \<open>None\<close>, a \<open>float\<close> and a \<open>str\<close>.
\<close>

datatype pyval = PyNone | PyBool bool | PyInt int | PyFloat real | PyStr string

fun isinstance_int :: "pyval \<Rightarrow> bool" where
  "isinstance_int (PyInt _) = True"
| "isinstance_int (PyBool _) = True"
| "isinstance_int _ = False"

fun int_value :: "pyval \<Rightarrow> real" where
  "int_value (PyInt r) = real_of_int r"
| "int_value (PyBool b) = (if b then 1 else 0)"
| "int_value _ = 0"

text \<open>\<open>str.lower\<close>, on ASCII text (the filter names are ASCII).\<close>

definition lower_char :: "char \<Rightarrow> char" where
  "lower_char c =
     (case map_of (zip ''ABCDEFGHIJKLMNOPQRSTUVWXYZ'' ''abcdefghijklmnopqrstuvwxyz'') c of
        None \<Rightarrow> c
      | Some d \<Rightarrow> d)"

definition lower :: "string \<Rightarrow> string" where
  "lower s = map lower_char s"

text \<open>
  The two PSF models of the \<open>crossdispersion\<close> module.  Only their identity matters
  here: they are handed to the fitter and compared with \<open>==\<close>.
\<close>

datatype psf = batman | batmen

type_synonym bounds = "real list \<times> real list"

text \<open>
  \<open>scipy.optimize.curve_fit(func, x, col, bounds=bounds, sigma=err)\<close>, a parameter of
  the model: it returns the fitted parameter vector or raises.  The covariance it also
  returns is never read.
\<close>

type_synonym fitter =
  "psf \<Rightarrow> real list \<Rightarrow> real list \<Rightarrow> bounds \<Rightarrow> real list option \<Rightarrow> error + real list"

definition order2end :: "nat \<Rightarrow> int" where
  "order2end colsize = (if colsize = 256 then 1900 else 1050)"

text \<open>
  The choice of model and bounds.  The caller's \<open>bounds\<close> argument is a parameter of
  this step as it is of the source, where both branches assign \<open>bounds\<close> anew.
\<close>

definition choose_model ::
  "bounds option \<Rightarrow> int \<Rightarrow> nat \<Rightarrow> string \<Rightarrow> real \<Rightarrow> real \<Rightarrow> psf \<times> bounds" where
  "choose_model bounds idx colsize filt x1 x2 =
     (if order2end colsize \<le> idx \<or> lower filt = ''f277w''
      then (batman,
            ([x1 - 3, 2, 100, 2, 300, 5],
             [x1 + 3, 4, 10 ^ 6, 8, 10 ^ 6, 10]))
      else (batmen,
            ([x2 - 3, 2, 3, 2, 3, 5, x1 - 3, 2, 100, 2, 300, 5],
             [x2 + 3, 4, 10 ^ 3, 8, 10 ^ 3, 10, x1 + 3, 4, 10 ^ 6, 8, 10 ^ 6, 10])))"

text \<open>\<open>if len(params) == 12: params = np.concatenate([params[6:], params[:6]])\<close>\<close>

definition switch_orders :: "real list \<Rightarrow> real list" where
  "switch_orders params = (if length params = 12 then drop 6 params @ take 6 params else params)"

text \<open>
  A Gaussian component \<open>(mu, sigma, A)\<close>, and the three of the order whose block
  starts at \<open>off\<close> (0 for order 1, 6 for order 2): the center peak and the two outer
  peaks.  The subscripts \<open>params[off + 5]\<close> etc. raise on a shorter vector.
\<close>

type_synonym gaussian = "real \<times> real \<times> real"

definition gaussians :: "real list \<Rightarrow> nat \<Rightarrow> error + gaussian list" where
  "gaussians params off =
     (if length params < off + 6 then Inl IndexError
      else Inr [(params ! off, params ! (off + 1), params ! (off + 2)),
                (params ! off - params ! (off + 5), params ! (off + 3), params ! (off + 4)),
                (params ! off + params ! (off + 5), params ! (off + 3), params ! (off + 4))])"

text \<open>
  \<open>sorted(..., key=lambda x: x[0])\<close> is a stable sort by the center; \<open>sort_key\<close> is
  the stable insertion sort of the list library.  The limits follow: center of the
  middle component plus and minus the radius when \<open>radius\<close> is an \<open>int\<close>, otherwise
  from the first component to the last, each widened by its own sigma times \<open>sigma\<close>.
\<close>

definition signal_limits :: "pyval \<Rightarrow> real \<Rightarrow> gaussian list \<Rightarrow> real \<times> real" where
  "signal_limits radius sigma gs =
     (let params1 = sort_key fst gs in
      if isinstance_int radius
      then (fst (params1 ! 1) - int_value radius, fst (params1 ! 1) + int_value radius)
      else (fst (params1 ! 0) - fst (snd (params1 ! 0)) * sigma,
            fst (last params1) + fst (snd (last params1)) * sigma))"

text \<open>\<open>ord[(x > llim) & (x < ulim)] = 0\<close>\<close>

definition unmask :: "real list \<Rightarrow> real list \<Rightarrow> real \<Rightarrow> real \<Rightarrow> real list" where
  "unmask ord x llim ulim =
     map (\<lambda>(m, xi). if llim < xi \<and> xi < ulim then 0 else m) (zip ord x)"

text \<open>
  The first half of \<open>isolate_signal\<close>, on the column \<open>col = frame[:, idx]\<close>: the trace
  centers, the choice of model and bounds, the fit over \<open>x = np.arange(col.size)\<close>, and
  the switch to the layout order 1 then order 2.  It yields the model fitted and the
  parameter vector.
\<close>

definition fit_signal ::
  "fitter \<Rightarrow> int \<Rightarrow> real list \<Rightarrow> bounds option \<Rightarrow> real list option \<Rightarrow> string
     \<Rightarrow> error + psf \<times> real list" where
  "fit_signal curve_fit idx col bounds err filt =
     (case trace_center 1 idx of Inl e \<Rightarrow> Inl e | Inr x1 \<Rightarrow>
     (case trace_center 2 idx of Inl e \<Rightarrow> Inl e | Inr x2 \<Rightarrow>
     (let (func, bnds) = choose_model bounds idx (length col) filt x1 x2;
          x = arange (length col)
      in
     (case curve_fit func x col bnds err of
        Inl e \<Rightarrow> Inl e
      | Inr params \<Rightarrow> Inr (func, switch_orders params)))))"

text \<open>
  \<open>isolate_signal(idx, frame, bounds, sigma, err, radius, filt)\<close>.  Plotting does not
  change what is returned and is left out.
\<close>

definition isolate_signal ::
  "fitter \<Rightarrow> int \<Rightarrow> frame \<Rightarrow> bounds option \<Rightarrow> real \<Rightarrow> real list option \<Rightarrow> pyval \<Rightarrow> string
     \<Rightarrow> error + real list \<times> real list" where
  "isolate_signal curve_fit idx frame bounds sigma err radius filt =
     (case frame_column frame idx of Inl e \<Rightarrow> Inl e | Inr col \<Rightarrow>
     (case fit_signal curve_fit idx col bounds err filt of Inl e \<Rightarrow> Inl e | Inr (func, params) \<Rightarrow>
     (let x = arange (length col) in
     (case gaussians params 0 of Inl e \<Rightarrow> Inl e | Inr g1 \<Rightarrow>
     (let (llim1, ulim1) = signal_limits radius sigma g1;
          ord1 = unmask (ones_like col) x llim1 ulim1
      in
      if func = batmen
      then (case gaussians params 6 of Inl e \<Rightarrow> Inl e | Inr g2 \<Rightarrow>
           (let (llim2, ulim2) = signal_limits radius sigma g2
            in Inr (ord1, unmask (ones_like col) x llim2 ulim2)))
      else Inr (ord1, ones_like col))))))"

subsection \<open>The signal region and its mask, in the words of the specification\<close>

text \<open>
  Specification 4.2, step 5: with the three components sorted by position into
  \<open>lo\<close>, \<open>mid\<close>, \<open>hi\<close>, the signal region is the middle component's center plus and
  minus the radius if a fixed pixel radius is supplied, and otherwise runs from the
  lowest center minus its sigma times the multiplier to the highest center plus its
  sigma times the multiplier.  A radius is supplied when it is a Python \<open>int\<close>; a
  \<open>bool\<close> is one, \<open>True\<close> being the radius 1 and \<open>False\<close> the radius 0.
\<close>

definition spec_signal_region ::
  "pyval \<Rightarrow> real \<Rightarrow> gaussian \<Rightarrow> gaussian \<Rightarrow> gaussian \<Rightarrow> real \<times> real" where
  "spec_signal_region radius sigma lo mid hi =
     (case radius of
        PyInt r \<Rightarrow> (fst mid - real_of_int r, fst mid + real_of_int r)
      | PyBool b \<Rightarrow> (fst mid - (if b then 1 else 0), fst mid + (if b then 1 else 0))
      | _ \<Rightarrow> (fst lo - fst (snd lo) * sigma, fst hi + fst (snd hi) * sigma))"

text \<open>
  Specification 4.2, step 6: the mask is 0 at the pixel positions strictly inside the
  (lower, upper) bound and 1 at all others.
\<close>

definition spec_region_mask :: "real \<times> real \<Rightarrow> nat \<Rightarrow> real list" where
  "spec_region_mask lims n =
     map (\<lambda>i. if fst lims < real i \<and> real i < snd lims then 0 else 1) [0..<n]"

section \<open>The thread pool\<close>

text \<open>
  \<open>ThreadPool(n_jobs).map(func, iterable)\<close> of the standard library's
  \<open>multiprocessing.dummy\<close>, as that library runs it.  The constructor raises
  \<open>ValueError\<close> for fewer than one worker.  \<open>map\<close> cuts the input into chunks of
  \<open>ceil(len / (4 * workers))\<close> items; a worker runs a whole chunk in input order
  (stopping at the first exception); when chunk \<open>i\<close> completes, its results are
  stored at \<open>value[i * chunksize : (i + 1) * chunksize]\<close>, or, if it raised and no
  earlier completed chunk did, its exception is kept; \<open>map\<close> returns the stored values
  or raises the kept exception once every chunk has completed.

  Which worker runs which chunk and when is the scheduler's choice.  It is modelled by
  an arbitrary function \<open>finish\<close> giving each chunk its completion time: the chunks
  complete in the order of their completion times.
\<close>

definition pool_chunksize :: "nat \<Rightarrow> nat \<Rightarrow> nat" where
  "pool_chunksize workers len =
     (if len mod (workers * 4) = 0 then len div (workers * 4)
      else len div (workers * 4) + 1)"

function chunks :: "nat \<Rightarrow> 'a list \<Rightarrow> 'a list list" where
  "chunks c xs = (if c = 0 \<or> xs = [] then [] else take c xs # chunks c (drop c xs))"
  by pat_completeness auto
termination
  by (relation "measure (\<lambda>(c, xs). length xs)") auto

fun mapstar :: "('a \<Rightarrow> error + 'b) \<Rightarrow> 'a list \<Rightarrow> error + 'b list" where
  "mapstar f [] = Inr []"
| "mapstar f (x # xs) =
     (case f x of
        Inl e \<Rightarrow> Inl e
      | Inr y \<Rightarrow> (case mapstar f xs of Inl e \<Rightarrow> Inl e | Inr ys \<Rightarrow> Inr (y # ys)))"

definition set_result ::
  "nat \<Rightarrow> nat \<Rightarrow> error + 'b list \<Rightarrow> error + 'b option list \<Rightarrow> error + 'b option list" where
  "set_result c i res st =
     (case st of
        Inl e \<Rightarrow> Inl e
      | Inr v \<Rightarrow>
         (case res of
            Inl e \<Rightarrow> Inl e
          | Inr ys \<Rightarrow> Inr (take (i * c) v @ map Some ys @ drop ((i + 1) * c) v)))"

definition pool_map ::
  "int \<Rightarrow> (nat \<Rightarrow> nat) \<Rightarrow> ('a \<Rightarrow> error + 'b) \<Rightarrow> 'a list \<Rightarrow> error + 'b list" where
  "pool_map n_jobs finish f xs =
     (if n_jobs < 1 then Inl ValueError
      else
        (let c = pool_chunksize (nat n_jobs) (length xs);
             tasks = chunks c xs;
             completed = sort_key finish [0..<length tasks];
             res = foldl (\<lambda>st i. set_result c i (mapstar f (tasks ! i)) st)
                     (Inr (replicate (length xs) None)) completed
         in case res of Inl e \<Rightarrow> Inl e | Inr v \<Rightarrow> Inr (map the v)))"

section \<open>The order mask builder\<close>

text \<open>
  The keyword arguments \<open>order_masks\<close> passes on to \<open>isolate_signal\<close>, each with the
  default of \<open>isolate_signal\<close>'s signature when the caller leaves it out.
\<close>

record kwargs =
  kw_bounds :: "bounds option"
  kw_sigma :: real
  kw_err :: "real list option"
  kw_radius :: pyval
  kw_filt :: string

definition no_kwargs :: kwargs where
  "no_kwargs =
     \<lparr>kw_bounds = None, kw_sigma = 3, kw_err = None, kw_radius = PyNone, kw_filt = ''CLEAR''\<rparr>"

type_synonym masks = "frame \<times> frame"

text \<open>\<open>for n, (ord1, ord2) in enumerate(masks): order1[:, n] = ord1; order2[:, n] = ord2\<close>\<close>

fun set_masks :: "nat \<Rightarrow> (real list \<times> real list) list \<Rightarrow> frame \<Rightarrow> frame \<Rightarrow> error + masks" where
  "set_masks n [] order1 order2 = Inr (order1, order2)"
| "set_masks n ((ord1, ord2) # ms) order1 order2 =
     (case set_column order1 n ord1 of
        Inl e \<Rightarrow> Inl e
      | Inr order1' \<Rightarrow>
         (case set_column order2 n ord2 of
            Inl e \<Rightarrow> Inl e
          | Inr order2' \<Rightarrow> set_masks (Suc n) ms order1' order2'))"

text \<open>The \<open>save\<close> branch up to \<open>np.save\<close>: one fit per column index in \<open>range(2048)\<close>.\<close>

definition compute_masks ::
  "fitter \<Rightarrow> (nat \<Rightarrow> nat) \<Rightarrow> frame \<Rightarrow> int \<Rightarrow> kwargs \<Rightarrow> error + masks" where
  "compute_masks curve_fit finish frame n_jobs kwargs =
     (case pool_map n_jobs finish
             (\<lambda>idx. isolate_signal curve_fit idx frame (kw_bounds kwargs) (kw_sigma kwargs)
                      (kw_err kwargs) (kw_radius kwargs) (kw_filt kwargs))
             (map int [0..<2048]) of
        Inl e \<Rightarrow> Inl e
      | Inr ms \<Rightarrow> set_masks 0 ms (zeros_like frame) (zeros_like frame))"

text \<open>\<open>if subarray == 'SUBSTRIP96': order1 = order1[:96]; order2 = order2[:96]\<close>\<close>

definition first_rows :: "nat \<Rightarrow> frame \<Rightarrow> frame" where
  "first_rows n fr = fr\<lparr>rows := take n (rows fr)\<rparr>"

definition trim :: "string \<Rightarrow> masks \<Rightarrow> masks" where
  "trim subarray m =
     (if subarray = ''SUBSTRIP96'' then (first_rows 96 (fst m), first_rows 96 (snd m)) else m)"

text \<open>
  \<open>order_masks(frame, subarray, n_jobs, save, **kwargs)\<close>.  The file
  \<open>files/order_masks.npy\<close> is explicit state: \<open>None\<close> when it does not exist, and the
  function returns its result together with the file afterwards.  The result is an
  exception, or what the call returns: \<open>Some\<close> pair of masks, or \<open>None\<close> for Python's
  \<open>None\<close>.  On a missing file the function calls itself as
  \<open>order_masks(frame, save=True, plot=plot)\<close>, that is with the default subarray, the
  default \<open>n_jobs=4\<close> and no keyword arguments, and then executes a bare \<open>return\<close>.
\<close>

function order_masks ::
  "fitter \<Rightarrow> (nat \<Rightarrow> nat) \<Rightarrow> masks option \<Rightarrow> frame \<Rightarrow> string \<Rightarrow> int \<Rightarrow> bool \<Rightarrow> kwargs
     \<Rightarrow> (error + masks option) \<times> masks option" where
  "order_masks curve_fit finish file frame subarray n_jobs save kwargs =
     (if save
      then (case compute_masks curve_fit finish frame n_jobs kwargs of
              Inl e \<Rightarrow> (Inl e, file)
            | Inr m \<Rightarrow> (Inr (Some (trim subarray m)), Some m))
      else (case file of
              Some m \<Rightarrow> (Inr (Some (trim subarray m)), file)
            | None \<Rightarrow>
               (case order_masks curve_fit finish file frame ''SUBSTRIP256'' 4 True no_kwargs of
                  (Inl e, file') \<Rightarrow> (Inl e, file')
                | (Inr m, file') \<Rightarrow> (Inr None, file'))))"
  by pat_completeness auto
termination
  by (relation "measure (\<lambda>(curve_fit, finish, file, frame, subarray, n_jobs, save, kwargs).
                           if save then 0 else 1)") auto

section \<open>The wavelength-bin indexer\<close>

text \<open>The pixel coordinates \<open>np.where\<close> returns: the row indices and the column indices.\<close>

type_synonym pixels = "nat list \<times> nat list"

text \<open>
  The edges of the bin of sample \<open>n\<close>.  \<open>throughput[0][n-1]\<close> and
  \<open>throughput[0][n+1]\<close> are subscripts, each inside a \<open>try\<close> whose \<open>except IndexError\<close>
  supplies 0.1 and 10; \<open>np.mean\<close> of two numbers is their midpoint.
\<close>

definition bin_edges :: "real list \<Rightarrow> nat \<Rightarrow> real \<times> real" where
  "bin_edges ws n =
     (let w = ws ! n;
          w0 = (case getitem ws (int n - 1) of Inl e \<Rightarrow> 1 / 10 | Inr v \<Rightarrow> v);
          w1 = (case getitem ws (int n + 1) of Inl e \<Rightarrow> 10 | Inr v \<Rightarrow> v)
      in ((w0 + w) / 2, (w1 + w) / 2))"

text \<open>\<open>np.where(np.logical_and(wave_map >= dw0, wave_map < dw1))\<close>, in row-major order.\<close>

definition where_between :: "real list list \<Rightarrow> real \<Rightarrow> real \<Rightarrow> pixels" where
  "where_between wave_map dw0 dw1 =
     (let hits = concat (map (\<lambda>(i, r). map (\<lambda>(j, v). (i, j))
                                (filter (\<lambda>(j, v). dw0 \<le> v \<and> v < dw1) (enumerate 0 r)))
                          (enumerate 0 wave_map))
      in (map fst hits, map snd hits))"

text \<open>The inner loop: one bin per sample of \<open>throughput[0]\<close>, the wavelengths.\<close>

definition order_bins :: "real list list \<Rightarrow> real list list \<Rightarrow> error + pixels list" where
  "order_bins throughput wave_map =
     (case getitem throughput 0 of
        Inl e \<Rightarrow> Inl e
      | Inr ws \<Rightarrow>
         Inr (map (\<lambda>n. where_between wave_map (fst (bin_edges ws n)) (snd (bin_edges ws n)))
                [0..<length ws]))"

text \<open>
  The outer loop, \<open>for order, (throughput, wave_map) in enumerate(zip(filters, wavecal))\<close>,
  appending to \<open>signal_pixels[order]\<close>.
\<close>

fun fill_bins ::
  "nat \<Rightarrow> (real list list \<times> real list list) list \<Rightarrow> pixels list list \<Rightarrow> error + pixels list list"
  where
  "fill_bins order [] signal_pixels = Inr signal_pixels"
| "fill_bins order ((throughput, wave_map) # rest) signal_pixels =
     (if length signal_pixels \<le> order then Inl IndexError
      else (case order_bins throughput wave_map of
              Inl e \<Rightarrow> Inl e
            | Inr bs \<Rightarrow>
               fill_bins (Suc order) rest
                 (signal_pixels[order := signal_pixels ! order @ bs])))"

text \<open>
  The throughput files: \<open>throughputs ord\<close> is the unpacked table of
  \<open>files/GR700XD_{ord}.txt\<close>, or \<open>None\<close> when \<open>os.path.isfile\<close> is false.  Only the
  files that exist are appended to \<open>filters\<close>.  A table is the 2D array that
  \<open>np.genfromtxt(..., unpack=True)\<close> returns for a file of two or more rows: its
  columns, each with one entry per row.  (For a one-row file the loader returns a 1D
  array, on which the loop over \<open>throughput[0]\<close> raises; such files are not
  modelled.)
\<close>

definition load_filters :: "(nat \<Rightarrow> real list list option) \<Rightarrow> real list list list" where
  "load_filters throughputs = List.map_filter throughputs [1, 2, 3]"

text \<open>
  The \<open>save\<close> branch up to \<open>np.save\<close>.  \<open>getdata\<close> is \<open>fits.getdata\<close> on a path;
  \<open>swapaxes(-2, -1)\<close> transposes each map.
\<close>

definition default_wavecal_file :: string where
  "default_wavecal_file = ''files/soss_wavelengths_fullframe.fits''"

definition compute_bins ::
  "(nat \<Rightarrow> real list list option) \<Rightarrow> (string \<Rightarrow> error + real list list list) \<Rightarrow> string option
     \<Rightarrow> error + pixels list list" where
  "compute_bins throughputs getdata wavecal_file =
     (let filters = load_filters throughputs in
      case getdata (case wavecal_file of None \<Rightarrow> default_wavecal_file | Some f \<Rightarrow> f) of
        Inl e \<Rightarrow> Inl e
      | Inr data \<Rightarrow> fill_bins 0 (zip filters (map transpose data)) [[], [], []])"

text \<open>
  \<open>wavelength_bins(save, subarray, wavecal_file)\<close>, with the file
  \<open>files/wavelength_bins.npy\<close> as explicit state.  \<open>subarray\<close> is never read.  On a
  missing file the function calls itself as \<open>wavelength_bins(save=True)\<close> and returns
  what that call returns.
\<close>

function wavelength_bins ::
  "(nat \<Rightarrow> real list list option) \<Rightarrow> (string \<Rightarrow> error + real list list list)
     \<Rightarrow> pixels list list option \<Rightarrow> bool \<Rightarrow> string option
     \<Rightarrow> (error + pixels list list) \<times> pixels list list option" where
  "wavelength_bins throughputs getdata file save wavecal_file =
     (if save
      then (case compute_bins throughputs getdata wavecal_file of
              Inl e \<Rightarrow> (Inl e, file)
            | Inr signal_pixels \<Rightarrow> (Inr signal_pixels, Some signal_pixels))
      else (case file of
              Some signal_pixels \<Rightarrow> (Inr signal_pixels, file)
            | None \<Rightarrow> wavelength_bins throughputs getdata file True None))"
  by pat_completeness auto
termination
  by (relation "measure (\<lambda>(throughputs, getdata, file, save, wavecal_file).
                           if save then 0 else 1)") auto

section \<open>Example inputs\<close>

text \<open>
  A fitter that ignores the data and returns fixed parameters: for the single model,
  center 2 with outer peaks at distance 1; for the dual model, the order-2 block first
  (center 7) and the order-1 block second (center 2), as the source lays them out.
  A frame of 10 rows and 2 columns.
\<close>

definition example_fit :: fitter where
  "example_fit func x col bnds err =
     (case func of
        batman \<Rightarrow> Inr [2, 1, 5, 1, 5, 1]
      | batmen \<Rightarrow> Inr [7, 1 / 2, 5, 1 / 2, 5, 1, 2, 1, 5, 1, 5, 1])"

definition example_frame :: frame where
  "example_frame =
     \<lparr>ncols = 2,
      rows = [[0, 0], [1, 0], [9, 0], [9, 0], [1, 0], [0, 0], [0, 0], [2, 0], [0, 0], [0, 0]]\<rparr>"

text \<open>A frame of 2 rows and 2048 columns, all zero.\<close>

definition wide_frame :: frame where
  "wide_frame = \<lparr>ncols = 2048, rows = [replicate 2048 0, replicate 2048 0]\<rparr>"

text \<open>
  Throughput tables for the three orders, each of two samples (first the wavelengths,
  then the throughputs, as \<open>np.genfromtxt(..., unpack=True)\<close> returns a file of two
  rows and two columns): wavelengths 1 and 2 for order 1, 3 and 4 for order 2, 5 and 6
  for order 3; once with the table of order 1 missing and once with all three.  A
  wavelength calibration cube of three maps of one row and two columns, whatever file
  is read.
\<close>

definition missing_1 :: "nat \<Rightarrow> real list list option" where
  "missing_1 ord =
     (if ord = 1 then None
      else if ord = 2 then Some [[3, 4], [1 / 2, 1 / 2]]
      else if ord = 3 then Some [[5, 6], [1 / 2, 1 / 2]]
      else None)"

definition all_present :: "nat \<Rightarrow> real list list option" where
  "all_present ord =
     (if ord = 1 then Some [[1, 2], [1 / 2, 1 / 2]]
      else if ord = 2 then Some [[3, 4], [1 / 2, 1 / 2]]
      else if ord = 3 then Some [[5, 6], [1 / 2, 1 / 2]]
      else None)"

definition example_getdata :: "string \<Rightarrow> error + real list list list" where
  "example_getdata f = Inr [[[9 / 5, 19 / 5]], [[19 / 5, 29 / 5]], [[29 / 5, 9 / 5]]]"

section \<open>The trace-center model: theorems\<close>

lemma polyval5:
  "polyval [a, b, c, d, e] x = a * x ^ 4 + b * x ^ 3 + c * x\<^sup>2 + d * x + e"
  by (simp add: polyval_def power2_eq_square power3_eq_cube power4_eq_xxxx algebra_simps)

lemma trace_polynomial_1:
  "trace_polynomial 1 = Inr (map (polyval (coeffs ! 0)) (arange 2048))"
  by (simp add: trace_polynomial_def getitem_def coeffs_def)

lemma trace_polynomial_2:
  "trace_polynomial 2 = Inr (map (polyval (coeffs ! 1)) (arange 2048))"
  by (simp add: trace_polynomial_def getitem_def coeffs_def)

lemma length_arange [simp]: "length (arange n) = n"
  by (simp add: arange_def)

lemma nth_arange [simp]: "i < n \<Longrightarrow> arange n ! i = real i"
  by (simp add: arange_def)

lemma trace_1_nth:
  "idx < 2048 \<Longrightarrow>
   map (polyval (coeffs ! 0)) (arange 2048) ! idx =
     171164994 / 10 ^ 19 * real idx ^ 4 + - (472119272 / 10 ^ 16) * real idx ^ 3
     + 510276801 / 10 ^ 13 * (real idx)\<^sup>2 + - (591535309 / 10 ^ 10) * real idx
     + 830680347 / 10 ^ 7"
  by (simp add: coeffs_def polyval5)

lemma trace_2_nth:
  "idx < 2048 \<Longrightarrow>
   map (polyval (coeffs ! 1)) (arange 2048) ! idx =
     235792131 / 10 ^ 21 * real idx ^ 4 + 242999478 / 10 ^ 16 * real idx ^ 3
     + 103641247 / 10 ^ 13 * (real idx)\<^sup>2 + - (363088657 / 10 ^ 10) * real idx
     + 996766537 / 10 ^ 7"
  by (simp add: coeffs_def polyval5)

text \<open>
  Claim C8.  For each of the orders 1 and 2, \<open>trace_polynomial\<close> returns (it does not
  raise) a sequence of length 2048 whose entry at every column index \<open>idx < 2048\<close> is
  the value at \<open>idx\<close> of the quartic with that order's fixed coefficients.
\<close>

theorem trace_polynomial_entries:
  assumes "order = 1 \<or> order = 2"
  shows "\<exists>ys. trace_polynomial order = Inr ys \<and> length ys = 2048 \<and>
           (\<forall>idx < 2048.
              ys ! idx =
                (if order = 1
                 then 171164994 / 10 ^ 19 * real idx ^ 4
                      + - (472119272 / 10 ^ 16) * real idx ^ 3
                      + 510276801 / 10 ^ 13 * (real idx)\<^sup>2
                      + - (591535309 / 10 ^ 10) * real idx + 830680347 / 10 ^ 7
                 else 235792131 / 10 ^ 21 * real idx ^ 4
                      + 242999478 / 10 ^ 16 * real idx ^ 3
                      + 103641247 / 10 ^ 13 * (real idx)\<^sup>2
                      + - (363088657 / 10 ^ 10) * real idx + 996766537 / 10 ^ 7))"
proof -
  from assms show ?thesis
  proof
    assume o: "order = 1"
    have "\<forall>idx < 2048. map (polyval (coeffs ! 0)) (arange 2048) ! idx =
            171164994 / 10 ^ 19 * real idx ^ 4 + - (472119272 / 10 ^ 16) * real idx ^ 3
            + 510276801 / 10 ^ 13 * (real idx)\<^sup>2 + - (591535309 / 10 ^ 10) * real idx
            + 830680347 / 10 ^ 7"
      using trace_1_nth by blast
    then show ?thesis
      unfolding o trace_polynomial_1 by (intro exI [of _ "map (polyval (coeffs ! 0)) (arange 2048)"]) simp
  next
    assume o: "order = 2"
    have "\<forall>idx < 2048. map (polyval (coeffs ! 1)) (arange 2048) ! idx =
            235792131 / 10 ^ 21 * real idx ^ 4 + 242999478 / 10 ^ 16 * real idx ^ 3
            + 103641247 / 10 ^ 13 * (real idx)\<^sup>2 + - (363088657 / 10 ^ 10) * real idx
            + 996766537 / 10 ^ 7"
      using trace_2_nth by blast
    then show ?thesis
      unfolding o trace_polynomial_2 by (intro exI [of _ "map (polyval (coeffs ! 1)) (arange 2048)"]) simp
  qed
qed

text \<open>Order 1 at columns 0 and 1: the constant term, and the sum of the coefficients.\<close>

theorem trace_polynomial_entries_witness:
  "((1::int) = 1 \<or> (1::int) = 2) \<and>
   (\<exists>ys. trace_polynomial 1 = Inr ys \<and> length ys = 2048 \<and>
      ys ! 0 = 830680347 / 10 ^ 7 \<and>
      ys ! 1 = 830089321495852892994 / 10 ^ 19)"
proof -
  obtain ys where ys: "trace_polynomial 1 = Inr ys" "length ys = 2048"
    and nth: "\<forall>idx < 2048. ys ! idx =
                (if (1::int) = 1
                 then 171164994 / 10 ^ 19 * real idx ^ 4
                      + - (472119272 / 10 ^ 16) * real idx ^ 3
                      + 510276801 / 10 ^ 13 * (real idx)\<^sup>2
                      + - (591535309 / 10 ^ 10) * real idx + 830680347 / 10 ^ 7
                 else 235792131 / 10 ^ 21 * real idx ^ 4
                      + 242999478 / 10 ^ 16 * real idx ^ 3
                      + 103641247 / 10 ^ 13 * (real idx)\<^sup>2
                      + - (363088657 / 10 ^ 10) * real idx + 996766537 / 10 ^ 7)"
    using trace_polynomial_entries [of 1] by auto
  from nth [rule_format, of 0] have "ys ! 0 = 830680347 / 10 ^ 7" by simp
  moreover from nth [rule_format, of 1] have "ys ! 1 = 830089321495852892994 / 10 ^ 19"
    by simp
  ultimately show ?thesis using ys by simp
qed

section \<open>The column signal isolator: theorems\<close>

lemma unmask_ones:
  "unmask (ones_like col) (arange (length col)) llim ulim
     = spec_region_mask (llim, ulim) (length col)"
  by (rule nth_equalityI) (simp_all add: unmask_def ones_like_def spec_region_mask_def)

lemma length_three: "length xs = 3 \<Longrightarrow> \<exists>a b c. xs = [a, b, c]"
  by (auto simp: length_Suc_conv numeral_3_eq_3)

lemma sort_key_three:
  fixes gs :: "gaussian list"
  assumes "length gs = 3"
  obtains lo mid hi where "sort_key fst gs = [lo, mid, hi]"
    "mset [lo, mid, hi] = mset gs" "fst lo \<le> fst mid" "fst mid \<le> fst hi"
proof -
  have "length (sort_key fst gs) = 3" using assms by simp
  then obtain lo mid hi where s: "sort_key fst gs = [lo, mid, hi]"
    using length_three by blast
  have "mset (sort_key fst gs) = mset gs" by simp
  moreover have "sorted (map fst (sort_key fst gs))" by (rule sorted_sort_key)
  ultimately have "mset [lo, mid, hi] = mset gs" "fst lo \<le> fst mid" "fst mid \<le> fst hi"
    unfolding s by simp_all
  with s show ?thesis by (rule that)
qed

lemma signal_limits_three:
  "sort_key fst gs = [lo, mid, hi] \<Longrightarrow>
   signal_limits radius sigma gs = spec_signal_region radius sigma lo mid hi"
  by (cases radius) (simp_all add: signal_limits_def spec_signal_region_def)

lemma gaussians_length: "gaussians params off = Inr gs \<Longrightarrow> length gs = 3"
  by (auto simp: gaussians_def split: if_splits)

lemma isolate_signal_cases:
  assumes "isolate_signal curve_fit idx frame bounds sigma err radius filt = Inr (ord1, ord2)"
  shows "\<exists>col func params g1.
    frame_column frame idx = Inr col \<and>
    fit_signal curve_fit idx col bounds err filt = Inr (func, params) \<and>
    gaussians params 0 = Inr g1 \<and>
    ord1 = spec_region_mask (signal_limits radius sigma g1) (length col) \<and>
    (if func = batmen
     then \<exists>g2. gaussians params 6 = Inr g2 \<and>
            ord2 = spec_region_mask (signal_limits radius sigma g2) (length col)
     else ord2 = ones_like col)"
  using assms
  unfolding isolate_signal_def
  by (auto simp: unmask_ones Let_def split: sum.splits prod.splits if_splits)

lemma lower_F277W: "lower ''F277W'' = ''f277w''"
  by (simp add: lower_def lower_char_def)

lemma frame_column_length: "frame_column frame idx = Inr col \<Longrightarrow> length col = length (rows frame)"
  by (auto simp: frame_column_def split: sum.splits)

lemma fit_signal_single:
  assumes "fit_signal curve_fit idx col bounds err filt = Inr (func, params)"
    and "order2end (length col) \<le> idx \<or> lower filt = ''f277w''"
  shows "func = batman \<and>
         (\<exists>x1 fitted. trace_center 1 idx = Inr x1 \<and>
            curve_fit batman (arange (length col)) col
              ([x1 - 3, 2, 100, 2, 300, 5], [x1 + 3, 4, 10 ^ 6, 8, 10 ^ 6, 10]) err = Inr fitted \<and>
            params = switch_orders fitted)"
  using assms unfolding fit_signal_def choose_model_def
  by (auto simp: Let_def split: sum.splits)


lemma choose_model_bounds:
  "choose_model (Some b) idx n filt x1 x2 = choose_model None idx n filt x1 x2"
  by (simp add: choose_model_def)

lemma fit_signal_bounds:
  "fit_signal curve_fit idx col (Some b) err filt = fit_signal curve_fit idx col None err filt"
  unfolding fit_signal_def choose_model_bounds by (rule refl)

lemma trace_center_in_range:
  assumes "0 \<le> idx" "idx < 2048"
  shows "trace_center 1 idx = Inr (polyval (coeffs ! 0) (real_of_int idx))"
    and "trace_center 2 idx = Inr (polyval (coeffs ! 1) (real_of_int idx))"
  using assms
  by (simp_all add: trace_center_def trace_polynomial_1 trace_polynomial_2 getitem_def)

lemma upt_10: "[0..<10] = [0, 1, 2, 3, 4, 5, 6, 7, 8, 9]"
  by (simp add: upt_rec)

lemmas isolate_signal_eval = upt_10
  isolate_signal_def frame_column_def getitem_def fit_signal_def trace_center_in_range
  choose_model_def order2end_def lower_def lower_char_def switch_orders_def gaussians_def
  signal_limits_def unmask_def ones_like_def arange_def Let_def

subsection \<open>The example column, evaluated\<close>

lemma example_clear:
  "isolate_signal example_fit 0 example_frame None 1 None PyNone ''CLEAR''
     = Inr ([1, 0, 0, 0, 1, 1, 1, 1, 1, 1], [1, 1, 1, 1, 1, 1, 0, 0, 0, 1])"
  by (simp add: isolate_signal_eval example_fit_def example_frame_def)

lemma example_f277w:
  "isolate_signal example_fit 1 example_frame None 1 None PyNone ''F277W''
     = Inr ([1, 0, 0, 0, 1, 1, 1, 1, 1, 1], [1, 1, 1, 1, 1, 1, 1, 1, 1, 1])"
  by (simp add: isolate_signal_eval example_fit_def example_frame_def)

lemma example_int_radius:
  "isolate_signal example_fit 0 example_frame None 1 None (PyInt 1) ''CLEAR''
     = Inr ([1, 1, 0, 1, 1, 1, 1, 1, 1, 1], [1, 1, 1, 1, 1, 1, 1, 0, 1, 1])"
  by (simp add: isolate_signal_eval example_fit_def example_frame_def)

lemma example_bool_radius:
  "isolate_signal example_fit 0 example_frame None 1 None (PyBool True) ''CLEAR''
     = Inr ([1, 1, 0, 1, 1, 1, 1, 1, 1, 1], [1, 1, 1, 1, 1, 1, 1, 0, 1, 1])"
  by (simp add: isolate_signal_eval example_fit_def example_frame_def)

lemma example_out_of_range:
  "isolate_signal example_fit 2 example_frame None 1 None PyNone ''CLEAR'' = Inl IndexError"
  by (simp add: isolate_signal_eval example_fit_def example_frame_def)

subsection \<open>Signal regions and masks\<close>

text \<open>
  Claim C1.  Whenever \<open>isolate_signal\<close> returns a pair of masks, the order-1 mask is
  built as follows, and so is the order-2 mask when the dual model was fitted: the
  three Gaussian components of the order, arranged as \<open>lo\<close>, \<open>mid\<close>, \<open>hi\<close> in
  nondecreasing order of their centers, give the signal region of the specification
  (center of \<open>mid\<close> minus and plus the radius for an integer radius, otherwise center
  of \<open>lo\<close> minus its sigma times \<open>sigma\<close> up to center of \<open>hi\<close> plus its sigma times
  \<open>sigma\<close>), and the mask is 0 exactly at the row positions strictly inside that
  region and 1 at every other row.
\<close>

theorem isolate_signal_regions:
  assumes "isolate_signal curve_fit idx frame bounds sigma err radius filt = Inr (ord1, ord2)"
  shows "\<exists>col func params.
     frame_column frame idx = Inr col \<and>
     fit_signal curve_fit idx col bounds err filt = Inr (func, params) \<and>
     (\<exists>g1 lo mid hi.
        gaussians params 0 = Inr g1 \<and> mset [lo, mid, hi] = mset g1 \<and>
        fst lo \<le> fst mid \<and> fst mid \<le> fst hi \<and>
        ord1 = spec_region_mask (spec_signal_region radius sigma lo mid hi) (length col)) \<and>
     (func = batmen \<longrightarrow>
       (\<exists>g2 lo mid hi.
          gaussians params 6 = Inr g2 \<and> mset [lo, mid, hi] = mset g2 \<and>
          fst lo \<le> fst mid \<and> fst mid \<le> fst hi \<and>
          ord2 = spec_region_mask (spec_signal_region radius sigma lo mid hi) (length col)))"
proof -
  from isolate_signal_cases [OF assms] obtain col func params g1 where
    col: "frame_column frame idx = Inr col"
    and fit: "fit_signal curve_fit idx col bounds err filt = Inr (func, params)"
    and g1: "gaussians params 0 = Inr g1"
    and o1: "ord1 = spec_region_mask (signal_limits radius sigma g1) (length col)"
    and o2: "if func = batmen then \<exists>g2. gaussians params 6 = Inr g2 \<and>
            ord2 = spec_region_mask (signal_limits radius sigma g2) (length col)
     else ord2 = ones_like col"
    by blast
  have region: "\<exists>lo mid hi. mset [lo, mid, hi] = mset g \<and> fst lo \<le> fst mid \<and> fst mid \<le> fst hi \<and>
          signal_limits radius sigma g = spec_signal_region radius sigma lo mid hi"
    if "gaussians params off = Inr g" for off g
  proof -
    from that have "length g = 3" by (rule gaussians_length)
    then obtain lo mid hi where s: "sort_key fst g = [lo, mid, hi]"
      "mset [lo, mid, hi] = mset g" "fst lo \<le> fst mid" "fst mid \<le> fst hi"
      by (rule sort_key_three)
    from signal_limits_three [OF s(1)] s(2-4) show ?thesis by blast
  qed
  from region [OF g1] o1 g1 have first:
    "\<exists>g1 lo mid hi.
        gaussians params 0 = Inr g1 \<and> mset [lo, mid, hi] = mset g1 \<and>
        fst lo \<le> fst mid \<and> fst mid \<le> fst hi \<and>
        ord1 = spec_region_mask (spec_signal_region radius sigma lo mid hi) (length col)"
    by metis
  have second: "\<exists>g2 lo mid hi.
          gaussians params 6 = Inr g2 \<and> mset [lo, mid, hi] = mset g2 \<and>
          fst lo \<le> fst mid \<and> fst mid \<le> fst hi \<and>
          ord2 = spec_region_mask (spec_signal_region radius sigma lo mid hi) (length col)"
    if "func = batmen"
  proof -
    from o2 that obtain g2 where g2: "gaussians params 6 = Inr g2"
      "ord2 = spec_region_mask (signal_limits radius sigma g2) (length col)" by auto
    from region [OF g2(1)] g2 show ?thesis by metis
  qed
  from col fit first second show ?thesis by blast
qed

theorem isolate_signal_regions_witness:
  "isolate_signal example_fit 0 example_frame None 1 None PyNone ''CLEAR''
     = Inr ([1, 0, 0, 0, 1, 1, 1, 1, 1, 1], [1, 1, 1, 1, 1, 1, 0, 0, 0, 1]) \<and>
   (\<exists>col func params.
     frame_column example_frame 0 = Inr col \<and>
     fit_signal example_fit 0 col None None ''CLEAR'' = Inr (func, params) \<and>
     (\<exists>g1 lo mid hi.
        gaussians params 0 = Inr g1 \<and> mset [lo, mid, hi] = mset g1 \<and>
        fst lo \<le> fst mid \<and> fst mid \<le> fst hi \<and>
        [1, 0, 0, 0, 1, 1, 1, 1, 1, 1]
          = spec_region_mask (spec_signal_region PyNone 1 lo mid hi) (length col)) \<and>
     (func = batmen \<longrightarrow>
       (\<exists>g2 lo mid hi.
          gaussians params 6 = Inr g2 \<and> mset [lo, mid, hi] = mset g2 \<and>
          fst lo \<le> fst mid \<and> fst mid \<le> fst hi \<and>
          [1, 1, 1, 1, 1, 1, 0, 0, 0, 1]
            = spec_region_mask (spec_signal_region PyNone 1 lo mid hi) (length col))))"
  using example_clear isolate_signal_regions [OF example_clear] by (rule conjI)

subsection \<open>Columns without a second order\<close>

text \<open>
  Claim C2.  Whenever \<open>isolate_signal\<close> returns and the filter is \<open>F277W\<close> or the column
  index is at or beyond the order-2 cutoff (1900 for a frame of 256 rows, 1050 for any
  other height), the order-2 mask is 1 at every row, and the fit that was run is the
  single-order model \<open>batman\<close> with the six-entry bounds around the order-1 trace
  center.
\<close>

theorem order2_fully_excluded:
  assumes "isolate_signal curve_fit idx frame bounds sigma err radius filt = Inr (ord1, ord2)"
    and "filt = ''F277W'' \<or> (if length (rows frame) = 256 then 1900 else 1050) \<le> idx"
  shows "ord2 = replicate (length (rows frame)) 1 \<and>
         (\<exists>col x1 fitted.
            frame_column frame idx = Inr col \<and> trace_center 1 idx = Inr x1 \<and>
            curve_fit batman (arange (length col)) col
              ([x1 - 3, 2, 100, 2, 300, 5], [x1 + 3, 4, 10 ^ 6, 8, 10 ^ 6, 10]) err = Inr fitted \<and>
            fit_signal curve_fit idx col bounds err filt = Inr (batman, switch_orders fitted))"
proof -
  from isolate_signal_cases [OF assms(1)] obtain col func params where
    col: "frame_column frame idx = Inr col"
    and fit: "fit_signal curve_fit idx col bounds err filt = Inr (func, params)"
    and o2: "if func = batmen then \<exists>g2. gaussians params 6 = Inr g2 \<and>
            ord2 = spec_region_mask (signal_limits radius sigma g2) (length col)
     else ord2 = ones_like col"
    by blast
  have len: "length col = length (rows frame)" by (rule frame_column_length [OF col])
  from assms(2) have "order2end (length col) \<le> idx \<or> lower filt = ''f277w''"
    by (auto simp: len order2end_def lower_F277W)
  from fit_signal_single [OF fit this] obtain x1 fitted where
    f: "func = batman" "trace_center 1 idx = Inr x1"
      "curve_fit batman (arange (length col)) col
              ([x1 - 3, 2, 100, 2, 300, 5], [x1 + 3, 4, 10 ^ 6, 8, 10 ^ 6, 10]) err = Inr fitted"
      "params = switch_orders fitted"
    by blast
  from o2 f(1) have "ord2 = ones_like col" by simp
  then have "ord2 = replicate (length (rows frame)) 1"
    by (simp add: ones_like_def len [symmetric] map_replicate_const)
  with col f fit show ?thesis by blast
qed

theorem order2_fully_excluded_witness:
  "isolate_signal example_fit 1 example_frame None 1 None PyNone ''F277W''
     = Inr ([1, 0, 0, 0, 1, 1, 1, 1, 1, 1], [1, 1, 1, 1, 1, 1, 1, 1, 1, 1]) \<and>
   (''F277W'' = ''F277W'' \<or>
    (if length (rows example_frame) = 256 then 1900 else 1050) \<le> (1::int)) \<and>
   [1, 1, 1, 1, 1, 1, 1, 1, 1, 1] = replicate (length (rows example_frame)) (1::real) \<and>
   (\<exists>col x1 fitted.
      frame_column example_frame 1 = Inr col \<and> trace_center 1 1 = Inr x1 \<and>
      example_fit batman (arange (length col)) col
        ([x1 - 3, 2, 100, 2, 300, 5], [x1 + 3, 4, 10 ^ 6, 8, 10 ^ 6, 10]) None = Inr fitted \<and>
      fit_signal example_fit 1 col None None ''F277W'' = Inr (batman, switch_orders fitted))"
proof -
  have filt: "''F277W'' = ''F277W'' \<or>
    (if length (rows example_frame) = 256 then 1900 else 1050) \<le> (1::int)"
    by simp
  from order2_fully_excluded [OF example_f277w filt] example_f277w filt
  show ?thesis by blast
qed

text \<open>
  The cutoff itself, on a frame of three rows with the \<open>CLEAR\<close> filter: column 1049
  is fitted with the dual model, column 1050 with the single model.
\<close>

lemma cutoff_1050:
  "fst (choose_model None 1049 3 ''CLEAR'' x1 x2) = batmen"
  "fst (choose_model None 1050 3 ''CLEAR'' x1 x2) = batman"
  "fst (choose_model None 1899 256 ''CLEAR'' x1 x2) = batmen"
  "fst (choose_model None 1900 256 ''CLEAR'' x1 x2) = batman"
  by (simp_all add: choose_model_def order2end_def lower_def lower_char_def)

subsection \<open>A radius that is not an int\<close>



subsection \<open>The caller's bounds\<close>

text \<open>
  Claim C4 fails on the code.  The \<open>bounds\<close> argument never reaches the fit: both
  branches of the model choice assign \<open>bounds\<close> anew, so a call with any bounds
  \<open>b\<close> is the call with none; at column 2000 of a 256-row frame, caller bounds
  \<open>([0, ..., 0], [1, ..., 1])\<close> are replaced by the built-in single-order bounds.
\<close>

theorem caller_bounds_overwritten:
  "isolate_signal curve_fit idx frame (Some b) sigma err radius filt
     = isolate_signal curve_fit idx frame None sigma err radius filt \<and>
   choose_model (Some ([0, 0, 0, 0, 0, 0], [1, 1, 1, 1, 1, 1])) 2000 256 ''CLEAR'' x1 x2
     = (batman, ([x1 - 3, 2, 100, 2, 300, 5], [x1 + 3, 4, 10 ^ 6, 8, 10 ^ 6, 10]))"
proof
  show "isolate_signal curve_fit idx frame (Some b) sigma err radius filt
     = isolate_signal curve_fit idx frame None sigma err radius filt"
    unfolding isolate_signal_def fit_signal_bounds by (rule refl)
  show "choose_model (Some ([0, 0, 0, 0, 0, 0], [1, 1, 1, 1, 1, 1])) 2000 256 ''CLEAR'' x1 x2
     = (batman, ([x1 - 3, 2, 100, 2, 300, 5], [x1 + 3, 4, 10 ^ 6, 8, 10 ^ 6, 10]))"
    by (simp add: choose_model_def order2end_def)
qed


section \<open>The thread pool: theorems\<close>

declare chunks.simps [simp del]

lemma concat_chunks: "0 < c \<Longrightarrow> concat (chunks c xs) = xs"
proof (induction c xs rule: chunks.induct)
  case (1 c xs)
  show ?case
  proof (cases "xs = []")
    case True
    then show ?thesis by (simp add: chunks.simps)
  next
    case False
    with 1 have "concat (chunks c (drop c xs)) = drop c xs" by simp
    with False 1(2) show ?thesis by (subst chunks.simps) simp
  qed
qed

lemma nth_chunks:
  "0 < c \<Longrightarrow> i < length (chunks c xs) \<Longrightarrow> chunks c xs ! i = take c (drop (i * c) xs)"
proof (induction c xs arbitrary: i rule: chunks.induct)
  case (1 c xs)
  from 1(3) have ne: "xs \<noteq> []" by (auto simp: chunks.simps)
  with 1(2) have unf: "chunks c xs = take c xs # chunks c (drop c xs)"
    by (subst chunks.simps) simp
  show ?case
  proof (cases i)
    case 0
    then show ?thesis by (simp add: unf)
  next
    case (Suc k)
    with 1(3) unf have "k < length (chunks c (drop c xs))" by simp
    with 1(1) 1(2) ne have "chunks c (drop c xs) ! k = take c (drop (k * c) (drop c xs))"
      by simp
    with Suc show ?thesis by (simp add: unf add.commute)
  qed
qed

lemma length_chunks_iff:
  "0 < c \<Longrightarrow> i < length (chunks c xs) \<longleftrightarrow> i * c < length xs"
proof (induction c xs arbitrary: i rule: chunks.induct)
  case (1 c xs)
  show ?case
  proof (cases "xs = []")
    case True
    then show ?thesis by (simp add: chunks.simps)
  next
    case False
    with 1(2) have unf: "chunks c xs = take c xs # chunks c (drop c xs)"
      by (subst chunks.simps) simp
    show ?thesis
    proof (cases i)
      case 0
      with False show ?thesis by (simp add: unf)
    next
      case (Suc k)
      from 1(1) [of k] 1(2) False
      have "k < length (chunks c (drop c xs)) \<longleftrightarrow> k * c < length xs - c" by simp
      with Suc show ?thesis by (auto simp: unf)
    qed
  qed
qed

lemma mapstar_iff: "mapstar f xs = Inr ys \<longleftrightarrow> map f xs = map Inr ys"
proof (induction xs arbitrary: ys)
  case Nil
  then show ?case by auto
next
  case (Cons a xs)
  show ?case
  proof (cases "f a")
    case (Inl e)
    then show ?thesis by (auto simp: Cons_eq_map_conv)
  next
    case fa: (Inr y)
    show ?thesis
    proof (cases "mapstar f xs")
      case (Inl e)
      have "map f xs \<noteq> map Inr zs" for zs
        using Cons.IH [of zs] Inl by simp
      with fa Inl show ?thesis by (auto simp: Cons_eq_map_conv)
    next
      case (Inr zs)
      with Cons.IH [of zs] have "map f xs = map Inr zs" by simp
      with fa Inr show ?thesis by (auto simp: Cons_eq_map_conv inj_map_eq_map)
    qed
  qed
qed

lemma mapstar_concat:
  "(\<And>t. t \<in> set ts \<Longrightarrow> \<exists>r. mapstar f t = Inr r) \<Longrightarrow> \<exists>ys. mapstar f (concat ts) = Inr ys"
proof (induction ts)
  case Nil
  then show ?case by simp
next
  case (Cons t ts)
  then obtain r ys where "mapstar f t = Inr r" "mapstar f (concat ts) = Inr ys"
    by (metis list.set_intros)
  then have "map f (concat (t # ts)) = map Inr (r @ ys)"
    by (simp add: mapstar_iff)
  then show ?case unfolding mapstar_iff [symmetric] by blast
qed


lemma div_eq_chunk:
  fixes c :: nat
  assumes "0 < c"
  shows "j div c = i \<longleftrightarrow> i * c \<le> j \<and> j < (i + 1) * c"
proof
  assume "j div c = i"
  then have "i = j div c" by simp
  moreover have "j div c * c \<le> j" by simp
  moreover have "j < (j div c + 1) * c"
    using dividend_less_div_times [OF assms, of j] by (simp add: algebra_simps)
  ultimately show "i * c \<le> j \<and> j < (i + 1) * c" by simp
next
  assume "i * c \<le> j \<and> j < (i + 1) * c"
  then show "j div c = i"
    by (intro div_nat_eqI) (simp_all add: mult.commute)
qed

lemma store_chunk_nth:
  fixes xs :: "'b option list"
  assumes "length xs = n" "length ms = min c (n - k)" "k < n" "j < n"
  shows "(take k xs @ ms @ drop (k + c) xs) ! j =
           (if j < k then xs ! j else if j < k + c then ms ! (j - k) else xs ! j)"
  using assms by (auto simp add: nth_append min_def)

lemma store_chunk_at:
  fixes ys :: "'b list"
  assumes dv: "\<And>j. (j div c = i) = (k \<le> j \<and> j < k + c)" and kn: "k < length ys"
  shows "take k (map (\<lambda>j. if j div c \<in> S then Some (ys ! j) else None) [0..<length ys])
         @ map Some (take c (drop k ys))
         @ drop (k + c) (map (\<lambda>j. if j div c \<in> S then Some (ys ! j) else None) [0..<length ys])
         = map (\<lambda>j. if j div c \<in> insert i S then Some (ys ! j) else None) [0..<length ys]"
    (is "take _ ?p @ ?m @ drop _ ?p = ?r")
proof (rule nth_equalityI)
  have lp: "length ?p = length ys" by simp
  have lm: "length ?m = min c (length ys - k)" by simp
  show len: "length (take k ?p @ ?m @ drop (k + c) ?p) = length ?r"
    using kn by (auto simp: min_def)
  fix j assume "j < length (take k ?p @ ?m @ drop (k + c) ?p)"
  with len have j: "j < length ys" by simp
  have nth: "(take k ?p @ ?m @ drop (k + c) ?p) ! j =
           (if j < k then ?p ! j else if j < k + c then ?m ! (j - k) else ?p ! j)"
    by (rule store_chunk_nth [OF lp lm kn j])
  have mid: "?m ! (j - k) = Some (ys ! j)" if "k \<le> j" "j < k + c"
  proof -
    from that j have "j - k < length (take c (drop k ys))" by (simp add: min_def) arith
    moreover from that have "j - k < c" by arith
    moreover from that have "k + (j - k) = j" by arith
    ultimately show ?thesis by simp
  qed
  show "(take k ?p @ ?m @ drop (k + c) ?p) ! j = ?r ! j"
    unfolding nth using j dv [of j] mid by auto
qed

lemma store_chunk:
  fixes ys :: "'b list"
  assumes c: "0 < c" and i: "i * c < length ys"
  shows "take (i * c) (map (\<lambda>j. if j div c \<in> S then Some (ys ! j) else None) [0..<length ys])
         @ map Some (take c (drop (i * c) ys))
         @ drop ((i + 1) * c) (map (\<lambda>j. if j div c \<in> S then Some (ys ! j) else None) [0..<length ys])
         = map (\<lambda>j. if j div c \<in> insert i S then Some (ys ! j) else None) [0..<length ys]"
proof -
  have k: "(i + 1) * c = i * c + c" by simp
  have dv: "(j div c = i) = (i * c \<le> j \<and> j < i * c + c)" for j
    using div_eq_chunk [OF c, of j i] by (simp add: add.commute)
  show ?thesis unfolding k by (rule store_chunk_at [OF dv i])
qed


lemma mapstar_length: "mapstar f xs = Inr ys \<Longrightarrow> length ys = length xs"
  unfolding mapstar_iff by (metis length_map)

lemma mapstar_chunk:
  assumes "mapstar f xs = Inr ys"
  shows "mapstar f (take c (drop k xs)) = Inr (take c (drop k ys))"
proof -
  from assms have "map f xs = map Inr ys" by (simp add: mapstar_iff)
  then have "take c (drop k (map f xs)) = take c (drop k (map Inr ys))" by simp
  then show ?thesis by (simp add: mapstar_iff take_map drop_map)
qed

lemma fold_store_success:
  assumes c: "0 < c" and ok: "mapstar f xs = Inr ys"
    and sub: "\<forall>i \<in> set is. i < length (chunks c xs)"
  shows "foldl (\<lambda>st i. set_result c i (mapstar f (chunks c xs ! i)) st)
           (Inr (map (\<lambda>j. if j div c \<in> S then Some (ys ! j) else None) [0..<length ys])) is
         = Inr (map (\<lambda>j. if j div c \<in> S \<union> set is then Some (ys ! j) else None) [0..<length ys])"
  using sub
proof (induction "is" arbitrary: S)
  case Nil
  then show ?case by simp
next
  case (Cons i "is")
  from Cons.prems have i: "i < length (chunks c xs)" by simp
  with c have ic: "i * c < length ys"
    by (simp add: length_chunks_iff mapstar_length [OF ok])
  from i c have "chunks c xs ! i = take c (drop (i * c) xs)" by (rule nth_chunks [rotated])
  then have res: "mapstar f (chunks c xs ! i) = Inr (take c (drop (i * c) ys))"
    by (simp add: mapstar_chunk [OF ok])
  have step: "set_result c i (mapstar f (chunks c xs ! i))
          (Inr (map (\<lambda>j. if j div c \<in> S then Some (ys ! j) else None) [0..<length ys]))
        = Inr (map (\<lambda>j. if j div c \<in> insert i S then Some (ys ! j) else None) [0..<length ys])"
    unfolding res set_result_def using store_chunk [OF c ic, of S] by simp
  from Cons.prems have "\<forall>i \<in> set is. i < length (chunks c xs)" by simp
  from Cons.IH [OF this, of "insert i S"] step show ?case by simp
qed

lemma fold_store_Inl:
  "foldl (\<lambda>st i. set_result c i (g i) st) (Inl e) is = Inl e"
  by (induction "is") (simp_all add: set_result_def)

lemma fold_store_all_ok:
  "foldl (\<lambda>st i. set_result c i (g i) st) st is = Inr v \<Longrightarrow> \<forall>i \<in> set is. \<exists>r. g i = Inr r"
proof (induction "is" arbitrary: st)
  case Nil
  then show ?case by simp
next
  case (Cons i "is")
  show ?case
  proof (cases "set_result c i (g i) st")
    case (Inl e)
    with Cons.prems show ?thesis by (simp add: fold_store_Inl)
  next
    case (Inr w)
    then have "\<exists>r. g i = Inr r"
      by (auto simp: set_result_def split: sum.splits)
    moreover from Cons.prems Inr have "\<forall>i \<in> set is. \<exists>r. g i = Inr r"
      using Cons.IH [of "Inr w"] by simp
    ultimately show ?thesis by simp
  qed
qed

lemma pool_chunksize_pos:
  assumes "0 < w" "0 < len"
  shows "0 < pool_chunksize w len"
proof (cases "len mod (w * 4) = 0")
  case True
  then have "w * 4 dvd len" by auto
  with assms have "w * 4 \<le> len" by (simp add: dvd_imp_le)
  with assms have "0 < len div (w * 4)" by (simp add: div_greater_zero_iff)
  with True show ?thesis by (simp add: pool_chunksize_def)
next
  case False
  then show ?thesis by (simp add: pool_chunksize_def)
qed

lemma pool_map_success:
  assumes n: "1 \<le> n_jobs" and ok: "mapstar f xs = Inr ys"
  shows "pool_map n_jobs finish f xs = Inr ys"
proof (cases "xs = []")
  case True
  with ok have "ys = []" by simp
  with True n show ?thesis by (simp add: pool_map_def chunks.simps)
next
  case False
  define c where "c = pool_chunksize (nat n_jobs) (length xs)"
  from False n have c: "0 < c"
    unfolding c_def by (intro pool_chunksize_pos) simp_all
  define cmpl where "cmpl = sort_key finish [0..<length (chunks c xs)]"
  have sd: "set cmpl = {0..<length (chunks c xs)}" by (simp add: cmpl_def)
  have len: "length ys = length xs" by (rule mapstar_length [OF ok])
  have "foldl (\<lambda>st i. set_result c i (mapstar f (chunks c xs ! i)) st)
           (Inr (map (\<lambda>j. if j div c \<in> {} then Some (ys ! j) else None) [0..<length ys])) cmpl
         = Inr (map (\<lambda>j. if j div c \<in> {} \<union> set cmpl then Some (ys ! j) else None) [0..<length ys])"
    by (rule fold_store_success [OF c ok]) (simp add: sd)
  moreover have "map (\<lambda>j. if j div c \<in> {} then Some (ys ! j) else None) [0..<length ys]
      = replicate (length xs) None"
    by (simp add: len map_replicate_const)
  moreover have "map (\<lambda>j. if j div c \<in> {} \<union> set cmpl then Some (ys ! j) else None) [0..<length ys]
      = map Some ys"
  proof (rule nth_equalityI)
    show "length (map (\<lambda>j. if j div c \<in> {} \<union> set cmpl then Some (ys ! j) else None) [0..<length ys])
        = length (map Some ys)" by simp
    fix j assume "j < length (map (\<lambda>j. if j div c \<in> {} \<union> set cmpl then Some (ys ! j) else None) [0..<length ys])"
    then have j: "j < length ys" by simp
    have "j div c * c \<le> j" by simp
    moreover from j len have "j < length xs" by simp
    ultimately have "j div c * c < length xs" by (rule le_less_trans)
    with c have "j div c \<in> set cmpl" by (simp add: sd length_chunks_iff)
    with j show "map (\<lambda>j. if j div c \<in> {} \<union> set cmpl then Some (ys ! j) else None) [0..<length ys] ! j
        = map Some ys ! j" by simp
  qed
  ultimately have "foldl (\<lambda>st i. set_result c i (mapstar f (chunks c xs ! i)) st)
           (Inr (replicate (length xs) None)) cmpl = Inr (map Some ys)"
    by simp
  with n show ?thesis
    by (simp add: pool_map_def Let_def c_def [symmetric] cmpl_def [symmetric] comp_def)
qed

lemma pool_map_all_ok:
  assumes n: "1 \<le> n_jobs" and res: "pool_map n_jobs finish f xs = Inr ys"
  shows "\<exists>zs. mapstar f xs = Inr zs"
proof (cases "xs = []")
  case True
  then show ?thesis by simp
next
  case False
  define c where "c = pool_chunksize (nat n_jobs) (length xs)"
  from False n have c: "0 < c"
    unfolding c_def by (intro pool_chunksize_pos) simp_all
  define cmpl where "cmpl = sort_key finish [0..<length (chunks c xs)]"
  have sd: "set cmpl = {0..<length (chunks c xs)}" by (simp add: cmpl_def)
  from res n obtain v where
    "foldl (\<lambda>st i. set_result c i (mapstar f (chunks c xs ! i)) st)
           (Inr (replicate (length xs) None)) cmpl = Inr v"
    by (auto simp: pool_map_def Let_def c_def [symmetric] cmpl_def [symmetric] split: sum.splits)
  then have "\<forall>i \<in> set cmpl. \<exists>r. mapstar f (chunks c xs ! i) = Inr r"
    by (rule fold_store_all_ok)
  then have "\<exists>r. mapstar f t = Inr r" if "t \<in> set (chunks c xs)" for t
    using that by (auto simp: sd in_set_conv_nth)
  then have "\<exists>zs. mapstar f (concat (chunks c xs)) = Inr zs" by (rule mapstar_concat)
  with c show ?thesis by (simp add: concat_chunks)
qed

lemma pool_map_iff:
  assumes "1 \<le> n_jobs"
  shows "pool_map n_jobs finish f xs = Inr ys \<longleftrightarrow> mapstar f xs = Inr ys"
proof
  assume r: "pool_map n_jobs finish f xs = Inr ys"
  from pool_map_all_ok [OF assms r] obtain zs where zs: "mapstar f xs = Inr zs" ..
  from pool_map_success [OF assms zs, of finish] r have "zs = ys" by simp
  with zs show "mapstar f xs = Inr ys" by simp
next
  assume "mapstar f xs = Inr ys"
  then show "pool_map n_jobs finish f xs = Inr ys" by (rule pool_map_success [OF assms])
qed

section \<open>The order mask builder: theorems\<close>

lemma set_column_Inr:
  assumes "set_column fr n v = Inr fr'"
  shows "n < ncols fr" "length v = length (rows fr)" "ncols fr' = ncols fr"
    "rows fr' = map (\<lambda>(r, x). r[n := x]) (zip (rows fr) v)"
  using assms by (auto simp: set_column_def split: if_splits)

lemma set_column_values:
  assumes "set_column fr n v = Inr fr'"
    and "\<forall>r \<in> set (rows fr). set r \<subseteq> B" and "set v \<subseteq> B"
  shows "\<forall>r \<in> set (rows fr'). set r \<subseteq> B"
proof
  fix r' assume "r' \<in> set (rows fr')"
  with set_column_Inr(4) [OF assms(1)] obtain r x where
    rx: "(r, x) \<in> set (zip (rows fr) v)" "r' = r[n := x]" by auto
  then have "r \<in> set (rows fr)" "x \<in> set v" by (auto dest: set_zip_leftD set_zip_rightD)
  with assms(2,3) have "set r \<subseteq> B" "x \<in> B" by auto
  moreover have "set (r[n := x]) \<subseteq> insert x (set r)" by (rule set_update_subset_insert)
  ultimately show "set r' \<subseteq> B" unfolding rx(2) by blast
qed

lemma set_masks_values:
  assumes "set_masks n ms o1 o2 = Inr (m1, m2)"
    and "\<forall>r \<in> set (rows o1). set r \<subseteq> B" and "\<forall>r \<in> set (rows o2). set r \<subseteq> B"
    and "\<forall>(a, b) \<in> set ms. set a \<subseteq> B \<and> set b \<subseteq> B"
  shows "(\<forall>r \<in> set (rows m1). set r \<subseteq> B) \<and> (\<forall>r \<in> set (rows m2). set r \<subseteq> B)"
  using assms
proof (induction n ms o1 o2 rule: set_masks.induct)
  case (1 n order1 order2)
  then show ?case by simp
next
  case (2 n ord1 ord2 ms order1 order2)
  from "2.prems"(1) obtain order1' order2' where
    s1: "set_column order1 n ord1 = Inr order1'" and
    s2: "set_column order2 n ord2 = Inr order2'" and
    rest: "set_masks (Suc n) ms order1' order2' = Inr (m1, m2)"
    by (auto split: sum.splits)
  from "2.prems"(4) have ab: "set ord1 \<subseteq> B" "set ord2 \<subseteq> B" by auto
  have v1: "\<forall>r \<in> set (rows order1'). set r \<subseteq> B"
    by (rule set_column_values [OF s1 "2.prems"(2) ab(1)])
  have v2: "\<forall>r \<in> set (rows order2'). set r \<subseteq> B"
    by (rule set_column_values [OF s2 "2.prems"(3) ab(2)])
  from "2.prems"(4) have "\<forall>(a, b) \<in> set ms. set a \<subseteq> B \<and> set b \<subseteq> B" by auto
  from "2.IH" [OF s1 s2 rest v1 v2 this] show ?case .
qed

lemma mapstar_set:
  "mapstar f xs = Inr ys \<Longrightarrow> y \<in> set ys \<Longrightarrow> \<exists>x \<in> set xs. f x = Inr y"
proof -
  assume "mapstar f xs = Inr ys" "y \<in> set ys"
  then have "map f xs = map Inr ys" "Inr y \<in> set (map Inr ys)" by (simp_all add: mapstar_iff)
  then have "Inr y \<in> set (map f xs)" by simp
  then show ?thesis by auto
qed

lemma spec_region_mask_values: "set (spec_region_mask lims n) \<subseteq> {0, 1}"
  by (auto simp: spec_region_mask_def)

lemma isolate_signal_values:
  assumes "isolate_signal curve_fit idx frame bounds sigma err radius filt = Inr (ord1, ord2)"
  shows "set ord1 \<subseteq> {0, 1} \<and> set ord2 \<subseteq> {0, 1}"
proof -
  from isolate_signal_cases [OF assms] obtain col func params g1 where
    o1: "ord1 = spec_region_mask (signal_limits radius sigma g1) (length col)"
    and o2: "if func = batmen
     then \<exists>g2. gaussians params 6 = Inr g2 \<and>
            ord2 = spec_region_mask (signal_limits radius sigma g2) (length col)
     else ord2 = ones_like col"
    by blast
  have "set (ones_like col) \<subseteq> {0, 1}" by (auto simp: ones_like_def)
  with o1 o2 show ?thesis
    by (auto simp: spec_region_mask_values split: if_splits
          dest: subsetD [OF spec_region_mask_values])
qed

declare order_masks.simps [simp del]

lemma order_masks_save:
  "order_masks curve_fit finish file frame subarray n_jobs True kwargs =
     (case compute_masks curve_fit finish frame n_jobs kwargs of
        Inl e \<Rightarrow> (Inl e, file)
      | Inr m \<Rightarrow> (Inr (Some (trim subarray m)), Some m))"
  by (subst order_masks.simps) simp

lemma order_masks_load:
  "order_masks curve_fit finish (Some m) frame subarray n_jobs False kwargs =
     (Inr (Some (trim subarray m)), Some m)"
  by (subst order_masks.simps) simp

lemma order_masks_miss:
  "order_masks curve_fit finish None frame subarray n_jobs False kwargs =
     (case compute_masks curve_fit finish frame 4 no_kwargs of
        Inl e \<Rightarrow> (Inl e, None)
      | Inr m \<Rightarrow> (Inr None, Some m))"
  by (subst order_masks.simps) (simp add: order_masks_save split: sum.splits)

lemma compute_masks_iff:
  assumes "1 \<le> n_jobs"
  shows "compute_masks curve_fit finish frame n_jobs kwargs = Inr m \<longleftrightarrow>
         (\<exists>ms. mapstar (\<lambda>idx. isolate_signal curve_fit idx frame (kw_bounds kwargs)
                           (kw_sigma kwargs) (kw_err kwargs) (kw_radius kwargs) (kw_filt kwargs))
                  (map int [0..<2048]) = Inr ms \<and>
               set_masks 0 ms (zeros_like frame) (zeros_like frame) = Inr m)"
    (is "?l \<longleftrightarrow> (\<exists>ms. mapstar ?f ?xs = Inr ms \<and> ?set ms)")
proof (cases "pool_map n_jobs finish ?f ?xs")
  case (Inl e)
  then have "mapstar ?f ?xs \<noteq> Inr ms" for ms
    using pool_map_iff [OF assms, of finish ?f ?xs ms] by simp
  with Inl show ?thesis by (simp add: compute_masks_def)
next
  case (Inr ms)
  then have "mapstar ?f ?xs = Inr ms"
    using pool_map_iff [OF assms, of finish ?f ?xs ms] by simp
  with Inr show ?thesis by (simp add: compute_masks_def)
qed

lemma compute_masks_workers:
  assumes "1 \<le> n_jobs" "1 \<le> m_jobs"
    and "compute_masks curve_fit finish frame n_jobs kwargs = Inr m"
  shows "compute_masks curve_fit finish' frame m_jobs kwargs = Inr m"
  using assms(3) unfolding compute_masks_iff [OF assms(1)] compute_masks_iff [OF assms(2)] .


lemma set_masks_assemble:
  assumes "\<forall>(a, b) \<in> set ms. length a = h \<and> length b = h"
    and "length (rows o1) = h" "length (rows o2) = h"
    and "\<forall>r \<in> set (rows o1). length r = w" "\<forall>r \<in> set (rows o2). length r = w"
    and "ncols o1 = w" "ncols o2 = w" "n + length ms \<le> w"
  shows "set_masks n ms o1 o2 =
     Inr (\<lparr>ncols = w,
           rows = map (\<lambda>i. take n (rows o1 ! i) @ map (\<lambda>m. fst m ! i) ms
                              @ drop (n + length ms) (rows o1 ! i)) [0..<h]\<rparr>,
          \<lparr>ncols = w,
           rows = map (\<lambda>i. take n (rows o2 ! i) @ map (\<lambda>m. snd m ! i) ms
                              @ drop (n + length ms) (rows o2 ! i)) [0..<h]\<rparr>)"
  using assms
proof (induction n ms o1 o2 rule: set_masks.induct)
  case (1 n order1 order2)
  have "map (\<lambda>i. rows order1 ! i) [0..<h] = rows order1"
    "map (\<lambda>i. rows order2 ! i) [0..<h] = rows order2"
    using 1(2,3) map_nth [of "rows order1"] map_nth [of "rows order2"] by simp_all
  with 1 show ?case by simp
next
  case (2 n ord1 ord2 ms order1 order2)
  from "2.prems" have la: "length ord1 = h" "length ord2 = h" and n: "n < w" by auto
  define order1' where "order1' = order1\<lparr>rows := map (\<lambda>(r, x). r[n := x]) (zip (rows order1) ord1)\<rparr>"
  define order2' where "order2' = order2\<lparr>rows := map (\<lambda>(r, x). r[n := x]) (zip (rows order2) ord2)\<rparr>"
  have s1: "set_column order1 n ord1 = Inr order1'"
    using "2.prems" la n by (simp add: set_column_def order1'_def)
  have s2: "set_column order2 n ord2 = Inr order2'"
    using "2.prems" la n by (simp add: set_column_def order2'_def)
  have r1: "rows order1' ! i = (rows order1 ! i)[n := ord1 ! i]" if "i < h" for i
    using that "2.prems"(2) la by (simp add: order1'_def)
  have r2: "rows order2' ! i = (rows order2 ! i)[n := ord2 ! i]" if "i < h" for i
    using that "2.prems"(3) la by (simp add: order2'_def)
  have l1: "length (rows order1 ! i) = w" if "i < h" for i
    using that "2.prems"(2,4) by simp
  have l2: "length (rows order2 ! i) = w" if "i < h" for i
    using that "2.prems"(3,5) by simp
  have p1: "\<forall>(a, b) \<in> set ms. length a = h \<and> length b = h" using "2.prems"(1) by auto
  have p2: "length (rows order1') = h" "length (rows order2') = h"
    using "2.prems"(2,3) la by (simp_all add: order1'_def order2'_def)
  have p3: "\<forall>r \<in> set (rows order1'). length r = w"
    using "2.prems"(4) by (auto simp: order1'_def dest: set_zip_leftD)
  have p4: "\<forall>r \<in> set (rows order2'). length r = w"
    using "2.prems"(5) by (auto simp: order2'_def dest: set_zip_leftD)
  have p5: "ncols order1' = w" "ncols order2' = w" "Suc n + length ms \<le> w"
    using "2.prems"(6,7,8) by (simp_all add: order1'_def order2'_def)
  have upd: "take (Suc n) (r[n := x]) @ vs @ drop (Suc n + k) (r[n := x])
               = take n r @ (x # vs) @ drop (n + Suc k) r"
    if "length r = w" for r :: "real list" and x vs k
    using that n by (simp add: take_Suc_conv_app_nth)
  have e1: "map (\<lambda>i. take (Suc n) (rows order1' ! i) @ map (\<lambda>m. fst m ! i) ms
                              @ drop (Suc n + length ms) (rows order1' ! i)) [0..<h]
        = map (\<lambda>i. take n (rows order1 ! i) @ map (\<lambda>m. fst m ! i) ((ord1, ord2) # ms)
                              @ drop (n + length ((ord1, ord2) # ms)) (rows order1 ! i)) [0..<h]"
  proof (rule map_cong [OF refl])
    fix i assume "i \<in> set [0..<h]"
    then have i: "i < h" by simp
    show "take (Suc n) (rows order1' ! i) @ map (\<lambda>m. fst m ! i) ms
                              @ drop (Suc n + length ms) (rows order1' ! i)
        = take n (rows order1 ! i) @ map (\<lambda>m. fst m ! i) ((ord1, ord2) # ms)
                              @ drop (n + length ((ord1, ord2) # ms)) (rows order1 ! i)"
      unfolding r1 [OF i]
      using upd [OF l1 [OF i], of "ord1 ! i" "map (\<lambda>m. fst m ! i) ms" "length ms"] by simp
  qed
  have e2: "map (\<lambda>i. take (Suc n) (rows order2' ! i) @ map (\<lambda>m. snd m ! i) ms
                              @ drop (Suc n + length ms) (rows order2' ! i)) [0..<h]
        = map (\<lambda>i. take n (rows order2 ! i) @ map (\<lambda>m. snd m ! i) ((ord1, ord2) # ms)
                              @ drop (n + length ((ord1, ord2) # ms)) (rows order2 ! i)) [0..<h]"
  proof (rule map_cong [OF refl])
    fix i assume "i \<in> set [0..<h]"
    then have i: "i < h" by simp
    show "take (Suc n) (rows order2' ! i) @ map (\<lambda>m. snd m ! i) ms
                              @ drop (Suc n + length ms) (rows order2' ! i)
        = take n (rows order2 ! i) @ map (\<lambda>m. snd m ! i) ((ord1, ord2) # ms)
                              @ drop (n + length ((ord1, ord2) # ms)) (rows order2 ! i)"
      unfolding r2 [OF i]
      using upd [OF l2 [OF i], of "ord2 ! i" "map (\<lambda>m. snd m ! i) ms" "length ms"] by simp
  qed
  from "2.IH" [OF s1 s2 p1 p2 p3 p4 p5] s1 s2 show ?case
    unfolding e1 e2 by simp
qed


lemma upt_2: "[0..<2] = [0, 1]"
  by (simp add: upt_rec)

lemma wide_column:
  assumes "0 \<le> idx" "idx < 2048"
  shows "isolate_signal example_fit idx wide_frame None 3 None PyNone ''CLEAR''
           = Inr ([0, 0], [1, 1])"
  using assms
  by (simp add: isolate_signal_def frame_column_def getitem_def fit_signal_def
        trace_center_in_range choose_model_def order2end_def lower_def lower_char_def
        switch_orders_def gaussians_def signal_limits_def unmask_def ones_like_def arange_def
        Let_def upt_2 example_fit_def wide_frame_def)

lemma mapstar_const:
  "\<forall>x \<in> set xs. f x = Inr c \<Longrightarrow> mapstar f xs = Inr (replicate (length xs) c)"
  by (induction xs) simp_all

lemma wide_masks:
  "mapstar (\<lambda>idx. isolate_signal example_fit idx wide_frame None 3 None PyNone ''CLEAR'')
     (map int [0..<2048]) = Inr (replicate 2048 ([0, 0], [1, 1]))"
  using mapstar_const [of "map int [0..<2048]"
          "\<lambda>idx. isolate_signal example_fit idx wide_frame None 3 None PyNone ''CLEAR''"
          "([0, 0], [1, 1])"]
  by (auto simp: wide_column)

lemma wide_assemble:
  "set_masks 0 (replicate 2048 ([0, 0], [1, 1])) (zeros_like wide_frame) (zeros_like wide_frame)
     = Inr (wide_frame, \<lparr>ncols = 2048, rows = [replicate 2048 1, replicate 2048 1]\<rparr>)"
  using set_masks_assemble
          [where ms = "replicate 2048 ([0, 0], [1, 1])" and h = 2 and w = 2048 and n = 0
             and ?o1.0 = "zeros_like wide_frame" and ?o2.0 = "zeros_like wide_frame"]
  by (simp add: zeros_like_def wide_frame_def upt_2)

lemma wide_compute:
  assumes "1 \<le> n_jobs"
  shows "compute_masks example_fit finish wide_frame n_jobs no_kwargs
           = Inr (wide_frame, \<lparr>ncols = 2048, rows = [replicate 2048 1, replicate 2048 1]\<rparr>)"
  unfolding compute_masks_iff [OF assms]
  using wide_masks wide_assemble by (simp add: no_kwargs_def)

lemma compute_masks_values:
  assumes "compute_masks curve_fit finish frame n_jobs kwargs = Inr (m1, m2)"
  shows "(\<forall>r \<in> set (rows m1). set r \<subseteq> {0, 1}) \<and> (\<forall>r \<in> set (rows m2). set r \<subseteq> {0, 1})"
proof (cases "1 \<le> n_jobs")
  case False
  with assms show ?thesis by (simp add: compute_masks_def pool_map_def)
next
  case True
  from assms obtain ms where
    ms: "mapstar (\<lambda>idx. isolate_signal curve_fit idx frame (kw_bounds kwargs)
                           (kw_sigma kwargs) (kw_err kwargs) (kw_radius kwargs) (kw_filt kwargs))
                  (map int [0..<2048]) = Inr ms"
    and sm: "set_masks 0 ms (zeros_like frame) (zeros_like frame) = Inr (m1, m2)"
    unfolding compute_masks_iff [OF True] by blast
  have cols: "\<forall>(a, b) \<in> set ms. set a \<subseteq> {0, 1} \<and> set b \<subseteq> {0, 1}"
  proof (clarify, intro conjI)
    fix a b assume "(a, b) \<in> set ms"
    from mapstar_set [OF ms this] obtain idx where
      "isolate_signal curve_fit idx frame (kw_bounds kwargs)
         (kw_sigma kwargs) (kw_err kwargs) (kw_radius kwargs) (kw_filt kwargs) = Inr (a, b)"
      by blast
    then have "set a \<subseteq> {0, 1} \<and> set b \<subseteq> {0, 1}" by (rule isolate_signal_values)
    then show "set a \<subseteq> {0, 1}" "set b \<subseteq> {0, 1}" by simp_all
  qed
  have z: "\<forall>r \<in> set (rows (zeros_like frame)). set r \<subseteq> {0, 1}"
    by (auto simp: zeros_like_def)
  show ?thesis by (rule set_masks_values [OF sm z z cols])
qed

subsection \<open>Independence of the number of workers\<close>

text \<open>
  Claim C7.  Let a call of the mask builder with \<open>n_jobs\<close> workers, under some
  completion order \<open>finish\<close> of the pool's chunks, return without raising.  Then the
  call on the same inputs with any other number \<open>m_jobs\<close> of workers, under any other
  completion order \<open>finish'\<close>, returns the very same result and leaves the very same
  file: each column's masks are a function of the column index and the shared inputs,
  and they are stored by column index.  (A pool needs at least one worker: with fewer
  the constructor raises.)
\<close>

theorem order_masks_worker_independent:
  assumes "1 \<le> n_jobs" "1 \<le> m_jobs"
    and "order_masks curve_fit finish file frame subarray n_jobs save kwargs = (Inr res, file')"
  shows "order_masks curve_fit finish' file frame subarray m_jobs save kwargs = (Inr res, file')"
proof (cases save)
  case True
  with assms(3) obtain m where
    m: "compute_masks curve_fit finish frame n_jobs kwargs = Inr m"
    and res: "res = Some (trim subarray m)" "file' = Some m"
    by (auto simp: order_masks_save split: sum.splits)
  from compute_masks_workers [OF assms(1,2) m]
  have "compute_masks curve_fit finish' frame m_jobs kwargs = Inr m" .
  with True res show ?thesis by (simp add: order_masks_save)
next
  case False
  show ?thesis
  proof (cases "file")
    case (Some m)
    with False assms(3) have "res = Some (trim subarray m)" "file' = Some m"
      by (simp_all add: order_masks_load)
    with False Some show ?thesis by (simp add: order_masks_load)
  next
    case None
    with False assms(3) obtain m where
      m: "compute_masks curve_fit finish frame 4 no_kwargs = Inr m"
      and res: "res = None" "file' = Some m"
      by (auto simp: order_masks_miss split: sum.splits)
    have "compute_masks curve_fit finish' frame 4 no_kwargs = Inr m"
      by (rule compute_masks_workers [OF _ _ m]) simp_all
    with False None res show ?thesis by (simp add: order_masks_miss)
  qed
qed

theorem order_masks_worker_independent_witness:
  "(1::int) \<le> 1 \<and> (1::int) \<le> 8 \<and>
   order_masks example_fit (\<lambda>i. i) None wide_frame ''SUBSTRIP256'' 1 True no_kwargs
     = (Inr (Some (wide_frame, \<lparr>ncols = 2048, rows = [replicate 2048 1, replicate 2048 1]\<rparr>)),
        Some (wide_frame, \<lparr>ncols = 2048, rows = [replicate 2048 1, replicate 2048 1]\<rparr>)) \<and>
   order_masks example_fit (\<lambda>i. 100 - i) None wide_frame ''SUBSTRIP256'' 8 True no_kwargs
     = (Inr (Some (wide_frame, \<lparr>ncols = 2048, rows = [replicate 2048 1, replicate 2048 1]\<rparr>)),
        Some (wide_frame, \<lparr>ncols = 2048, rows = [replicate 2048 1, replicate 2048 1]\<rparr>))"
proof -
  have one: "(1::int) \<le> 1" and eight: "(1::int) \<le> 8" by simp_all
  have run: "order_masks example_fit (\<lambda>i. i) None wide_frame ''SUBSTRIP256'' 1 True no_kwargs
     = (Inr (Some (wide_frame, \<lparr>ncols = 2048, rows = [replicate 2048 1, replicate 2048 1]\<rparr>)),
        Some (wide_frame, \<lparr>ncols = 2048, rows = [replicate 2048 1, replicate 2048 1]\<rparr>))"
    by (simp add: order_masks_save wide_compute trim_def)
  from order_masks_worker_independent [OF one eight run, of "\<lambda>i. 100 - i"] run
  show ?thesis by simp
qed

subsection \<open>A missing mask file\<close>

text \<open>
  Claim C3 fails on the code.  With no mask file and \<open>save\<close> false, the builder does
  recompute exactly once (the inner call has \<open>save\<close> true and cannot recurse), with
  4 workers and no keyword arguments whatever the caller passed, and writes the file;
  but it then returns \<open>None\<close>, not the masks.  On the example frame the call returns
  \<open>None\<close> when the file is missing and the two masks when it exists.
\<close>

theorem cache_miss_returns_none:
  "order_masks curve_fit finish None frame subarray n_jobs False kwargs =
     (case compute_masks curve_fit finish frame 4 no_kwargs of
        Inl e \<Rightarrow> (Inl e, None)
      | Inr m \<Rightarrow> (Inr None, Some m)) \<and>
   order_masks example_fit finish None wide_frame ''SUBSTRIP256'' 4 False no_kwargs
     = (Inr None,
        Some (wide_frame, \<lparr>ncols = 2048, rows = [replicate 2048 1, replicate 2048 1]\<rparr>)) \<and>
   order_masks example_fit finish
       (Some (wide_frame, \<lparr>ncols = 2048, rows = [replicate 2048 1, replicate 2048 1]\<rparr>))
       wide_frame ''SUBSTRIP256'' 4 False no_kwargs
     = (Inr (Some (wide_frame, \<lparr>ncols = 2048, rows = [replicate 2048 1, replicate 2048 1]\<rparr>)),
        Some (wide_frame, \<lparr>ncols = 2048, rows = [replicate 2048 1, replicate 2048 1]\<rparr>))"
  by (simp add: order_masks_miss order_masks_load wide_compute trim_def)

subsection \<open>Binary masks\<close>

text \<open>
  Claim C10.  Every entry of the two column masks \<open>isolate_signal\<close> returns is 0 or 1,
  and so is every entry of the two full-frame masks the builder returns after
  computing them.
\<close>

theorem masks_are_binary:
  "(isolate_signal curve_fit idx frame bounds sigma err radius filt = Inr (ord1, ord2) \<longrightarrow>
      set ord1 \<subseteq> {0, 1} \<and> set ord2 \<subseteq> {0, 1}) \<and>
   (order_masks curve_fit finish cache frame subarray n_jobs True kwargs
      = (Inr (Some (order1, order2)), cache') \<longrightarrow>
      set (concat (rows order1)) \<subseteq> {0, 1} \<and> set (concat (rows order2)) \<subseteq> {0, 1})"
proof (intro conjI impI)
  assume "isolate_signal curve_fit idx frame bounds sigma err radius filt = Inr (ord1, ord2)"
  then have "set ord1 \<subseteq> {0, 1} \<and> set ord2 \<subseteq> {0, 1}" by (rule isolate_signal_values)
  then show "set ord1 \<subseteq> {0, 1}" "set ord2 \<subseteq> {0, 1}" by simp_all
next
  assume run: "order_masks curve_fit finish cache frame subarray n_jobs True kwargs
      = (Inr (Some (order1, order2)), cache')"
  then obtain m1 m2 where
    m: "compute_masks curve_fit finish frame n_jobs kwargs = Inr (m1, m2)"
    and t: "(order1, order2) = trim subarray (m1, m2)"
    by (auto simp: order_masks_save split: sum.splits)
  from compute_masks_values [OF m]
  have b: "\<forall>r \<in> set (rows m1). set r \<subseteq> {0, 1}" "\<forall>r \<in> set (rows m2). set r \<subseteq> {0, 1}"
    by simp_all
  from t have "set (rows order1) \<subseteq> set (rows m1)" "set (rows order2) \<subseteq> set (rows m2)"
    by (auto simp: trim_def first_rows_def split: if_splits dest: in_set_takeD)
  with b show "set (concat (rows order1)) \<subseteq> {0, 1}" "set (concat (rows order2)) \<subseteq> {0, 1}"
    by auto
qed

theorem masks_are_binary_witness:
  "isolate_signal example_fit 0 wide_frame None 3 None PyNone ''CLEAR'' = Inr ([0, 0], [1, 1]) \<and>
   set [0, 0] \<subseteq> {0, 1::real} \<and>
   set [1, 1] \<subseteq> {0, 1::real} \<and>
   order_masks example_fit (\<lambda>i. i) None wide_frame ''SUBSTRIP256'' 4 True no_kwargs
     = (Inr (Some (wide_frame, \<lparr>ncols = 2048, rows = [replicate 2048 1, replicate 2048 1]\<rparr>)),
        Some (wide_frame, \<lparr>ncols = 2048, rows = [replicate 2048 1, replicate 2048 1]\<rparr>)) \<and>
   set (concat (rows wide_frame)) \<subseteq> {0, 1} \<and>
   set (concat (rows \<lparr>ncols = 2048, rows = [replicate 2048 1, replicate 2048 (1::real)]\<rparr>))
     \<subseteq> {0, 1}"
proof -
  have col: "isolate_signal example_fit 0 wide_frame None 3 None PyNone ''CLEAR''
               = Inr ([0, 0], [1, 1])"
    by (rule wide_column) simp_all
  have run: "order_masks example_fit (\<lambda>i. i) None wide_frame ''SUBSTRIP256'' 4 True no_kwargs
     = (Inr (Some (wide_frame, \<lparr>ncols = 2048, rows = [replicate 2048 1, replicate 2048 1]\<rparr>)),
        Some (wide_frame, \<lparr>ncols = 2048, rows = [replicate 2048 1, replicate 2048 1]\<rparr>))"
    by (simp add: order_masks_save wide_compute trim_def)
  from masks_are_binary
         [where curve_fit = example_fit and idx = 0 and frame = wide_frame
            and bounds = None and sigma = 3 and err = None and radius = PyNone
            and filt = "''CLEAR''" and ?ord1.0 = "[0, 0]" and ?ord2.0 = "[1, 1]"
            and finish = "\<lambda>i. i" and cache = None and subarray = "''SUBSTRIP256''"
            and n_jobs = 4 and kwargs = no_kwargs and ?order1.0 = wide_frame
            and ?order2.0 = "\<lparr>ncols = 2048, rows = [replicate 2048 1, replicate 2048 1]\<rparr>"
            and cache' = "Some (wide_frame,
                  \<lparr>ncols = 2048, rows = [replicate 2048 1, replicate 2048 1]\<rparr>)"]
    col run
  show ?thesis by blast
qed

section \<open>The wavelength-bin indexer: theorems\<close>

lemma getitem_eval:
  "getitem [a] (-1) = Inr a" "getitem [a] 1 = Inl IndexError" "getitem (a # as) 0 = Inr a"
  "getitem [a, b] (-1) = Inr b" "getitem [a, b] 1 = Inr b" "getitem [a, b] 2 = Inl IndexError"
  "getitem [a, b, c] (-1) = Inr c" "getitem [a, b, c] 1 = Inr b" "getitem [a, b, c] 2 = Inr c"
  "getitem [a, b, c] 3 = Inl IndexError"
  by (simp_all add: getitem_def)

lemma bin_edges_first: "ws \<noteq> [] \<Longrightarrow> fst (bin_edges ws 0) = (last ws + ws ! 0) / 2"
proof -
  assume ne: "ws \<noteq> []"
  then have "Suc 0 \<le> length ws" by (cases ws) simp_all
  then have "getitem ws (int 0 - 1) = Inr (ws ! (length ws - 1))"
    by (auto simp add: getitem_def nat_diff_distrib')
  with ne show ?thesis
    by (simp add: bin_edges_def Let_def last_conv_nth)
qed

lemma bin_edges_lower:
  "0 < n \<Longrightarrow> n < length ws \<Longrightarrow> fst (bin_edges ws n) = (ws ! (n - 1) + ws ! n) / 2"
  by (simp add: bin_edges_def getitem_def Let_def nat_diff_distrib')

lemma bin_edges_upper:
  "n + 1 < length ws \<Longrightarrow> snd (bin_edges ws n) = (ws ! (n + 1) + ws ! n) / 2"
  "n + 1 = length ws \<Longrightarrow> snd (bin_edges ws n) = (10 + ws ! n) / 2"
  by (auto simp add: bin_edges_def getitem_def Let_def nat_add_distrib)

lemma where_between_pixels:
  "set (zip (fst (where_between m a b)) (snd (where_between m a b)))
     = {(i, j). i < length m \<and> j < length (m ! i) \<and> a \<le> m ! i ! j \<and> m ! i ! j < b}"
proof -
  have "set (concat (map (\<lambda>(i, r). map (\<lambda>(j, v). (i, j))
                                (filter (\<lambda>(j, v). a \<le> v \<and> v < b) (enumerate 0 r)))
                          (enumerate 0 m)))
        = {(i, j). i < length m \<and> j < length (m ! i) \<and> a \<le> m ! i ! j \<and> m ! i ! j < b}"
    (is "?A = ?B")
  proof (intro equalityI subsetI)
    fix p assume "p \<in> ?A"
    then show "p \<in> ?B" by (auto simp: in_set_enumerate_eq)
  next
    fix p assume "p \<in> ?B"
    then obtain i j where p: "p = (i, j)" and ij: "i < length m" "j < length (m ! i)"
      "a \<le> m ! i ! j" "m ! i ! j < b" by auto
    from ij have "(i, m ! i) \<in> set (enumerate 0 m)"
      and "(j, m ! i ! j) \<in> set (filter (\<lambda>(j, v). a \<le> v \<and> v < b) (enumerate 0 (m ! i)))"
      by (auto simp: in_set_enumerate_eq)
    then have "(i, j) \<in> set (map (\<lambda>(j, v). (i, j))
                  (filter (\<lambda>(j, v). a \<le> v \<and> v < b) (enumerate 0 (m ! i))))"
      and "(i, m ! i) \<in> set (enumerate 0 m)"
      by force+
    then show "p \<in> ?A" unfolding p by force
  qed
  then show ?thesis by (simp add: where_between_def Let_def zip_map_fst_snd)
qed

declare wavelength_bins.simps [simp del]

lemma wavelength_bins_miss:
  "wavelength_bins throughputs getdata None False wavecal_file =
     (case compute_bins throughputs getdata None of
        Inl e \<Rightarrow> (Inl e, None)
      | Inr signal_pixels \<Rightarrow> (Inr signal_pixels, Some signal_pixels))"
  by (simp add: wavelength_bins.simps [of _ _ _ False] wavelength_bins.simps [of _ _ _ True])

subsection \<open>The edges of the first bin\<close>

text \<open>
  Claim C5 fails on the code.  For the first sample, \<open>throughput[0][n-1]\<close> is
  \<open>throughput[0][-1]\<close>, the last sample: the subscript does not raise, so the
  sentinel 0.1 is never used and the lower edge of the first bin is the midpoint of
  the first and the last sample (\<open>bin_edges_first\<close>).  With samples 1, 2, 3 the
  first bin is \<open>[2, 1.5)\<close> and holds no pixel, where the claim has \<open>[0.55, 1.5)\<close>:
  the pixels of wavelength 1 and 1.2 land in no bin.  Every other edge is as the
  claim says (\<open>bin_edges_lower\<close>, \<open>bin_edges_upper\<close>), and a bin holds exactly the
  pixels with a value in \<open>[dw0, dw1)\<close> (\<open>where_between_pixels\<close>).
\<close>

theorem first_bin_wraps_around:
  "bin_edges [1, 2, 3] 0 = (2, 3 / 2) \<and>
   bin_edges [1, 2, 3] 1 = (3 / 2, 5 / 2) \<and>
   bin_edges [1, 2, 3] 2 = (5 / 2, 13 / 2) \<and>
   order_bins [[1, 2, 3], [1 / 2, 1 / 2, 1 / 2]] [[1, 6 / 5], [2, 3]]
     = Inr [([], []), ([1], [0]), ([1], [1])]"
  by (simp add: order_bins_def bin_edges_def getitem_def where_between_def upt_rec Let_def)

subsection \<open>A missing throughput file\<close>

text \<open>
  Claim C6 fails on the code.  Only the tables that exist are collected, and they are
  then paired with the wavelength maps by position, so a missing table shifts every
  later order down by one.  With the table of order 1 missing, the bins stored for
  order 1 are those of the order-2 table on the order-1 map (one pixel in the second
  bin instead of two), the bins stored for order 2 are those of the order-3 table on
  the order-2 map (one pixel instead of two), and the empty list is order 3's, whose
  table exists; none of the three is what the run with all tables gives.  No error is
  raised.
\<close>

theorem missing_file_shifts_orders:
  "compute_bins all_present example_getdata None
     = Inr [[([], []), ([0, 1], [0, 0])], [([], []), ([0, 1], [0, 0])], [([], []), ([0], [0])]] \<and>
   compute_bins missing_1 example_getdata None
     = Inr [[([], []), ([1], [0])], [([], []), ([1], [0])], []]"
  by (simp add: compute_bins_def load_filters_def missing_1_def
        all_present_def example_getdata_def order_bins_def bin_edges_def getitem_def
        where_between_def upt_rec Let_def)

end
